theory Spec2Isabelle
  imports Main "HOL-Library.Word"
begin

unbundle bit_operations_syntax

section \<open>Machine integers and byte buffers\<close>

type_synonym u8 = "8 word"
type_synonym u16 = "16 word"
type_synonym u32 = "32 word"
type_synonym u64 = "64 word"

section \<open>RC4 stream cipher (auth/rc4.hpp, rc4.cpp)\<close>

text \<open>
  The class holds \<^verbatim>\<open>uint8_t state[256]\<close> and the two cursor bytes \<^verbatim>\<open>x\<close>, \<^verbatim>\<open>y\<close>.
  The record fields carry the prefix \<open>rc4_\<close> because a record field is a global constant.
  All index arithmetic of the source is on \<^verbatim>\<open>uint8_t\<close>, so it wraps modulo 256: these are
  operations of \<^typ>\<open>u8\<close>; an index into the table is \<open>unat\<close> of such a byte.
\<close>

record RC4 =
  rc4_state :: "u8 list"
  rc4_x :: u8
  rc4_y :: u8

definition identity_state :: "u8 list" where
  "identity_state = map word_of_nat [0..<256]"

text \<open>The constructor \<^verbatim>\<open>RC4::RC4()\<close>: identity table, both cursors 0.\<close>

definition RC4_new :: RC4 where
  "RC4_new = \<lparr>rc4_state = identity_state, rc4_x = 0, rc4_y = 0\<rparr>"

text \<open>\<^verbatim>\<open>temp = state[i]; state[i] = state[j]; state[j] = temp;\<close>\<close>

definition swap :: "u8 list \<Rightarrow> nat \<Rightarrow> nat \<Rightarrow> u8 list" where
  "swap s i j = (let temp = s ! i; s1 = s[i := s ! j] in s1[j := temp])"

text \<open>
  One iteration of the key-scheduling loop, for loop index \<open>i\<close>, on the pair of the running
  byte \<open>j\<close> and the table: \<^verbatim>\<open>j = j + state[i] + key[i % key.size()]\<close>, then the swap.
\<close>

definition ksa_step :: "u8 list \<Rightarrow> nat \<Rightarrow> u8 \<times> u8 list \<Rightarrow> u8 \<times> u8 list" where
  "ksa_step key i js =
     (let j = fst js + snd js ! i + key ! (i mod length key)
      in (j, swap (snd js) i (unat j)))"

text \<open>
  \<^verbatim>\<open>RC4::init\<close>: an empty key is logged and the call returns at once; otherwise the cursors
  are reset, the table is set to the identity and the loop runs for \<open>i = 0, ..., 255\<close>.
\<close>

definition RC4_init :: "u8 list \<Rightarrow> RC4 \<Rightarrow> RC4" where
  "RC4_init key c =
     (if key = [] then c
      else \<lparr>rc4_state = snd (fold (ksa_step key) [0..<256] (0, identity_state)),
            rc4_x = 0, rc4_y = 0\<rparr>)"

text \<open>
  \<^verbatim>\<open>RC4::process\<close>: the generation loop over the buffer, in place; the model returns the
  transformed buffer and the cipher state after the call. A buffer of length 0 returns at once.
\<close>

fun RC4_process :: "u8 list \<Rightarrow> RC4 \<Rightarrow> u8 list \<times> RC4" where
  "RC4_process [] c = ([], c)"
| "RC4_process (d # ds) c =
     (let x' = rc4_x c + 1;
          y' = rc4_y c + rc4_state c ! unat x';
          s' = swap (rc4_state c) (unat x') (unat y');
          keystreamByte = s' ! unat (s' ! unat x' + s' ! unat y');
          r = RC4_process ds \<lparr>rc4_state = s', rc4_x = x', rc4_y = y'\<rparr>
      in ((d XOR keystreamByte) # fst r, snd r))"

text \<open>\<^verbatim>\<open>RC4::drop\<close>: runs \<^verbatim>\<open>process\<close> over \<open>count\<close> zero bytes and forgets the output.\<close>

definition RC4_drop :: "nat \<Rightarrow> RC4 \<Rightarrow> RC4" where
  "RC4_drop count c = snd (RC4_process (replicate count 0) c)"

text \<open>The table that the key schedule produces for the key \<open>Key\<close> (4B 65 79).\<close>

definition Key_table :: "u8 list" where
  "Key_table =
    [75,51,132,157,192,200,29,168,74,243,131,228,18,112,130,144,91,143,236,34,41,185,204,92,
     191,216,186,14,110,77,8,35,188,27,103,137,182,64,59,105,215,247,238,126,138,26,227,55,
     21,84,104,78,135,113,255,172,56,89,187,28,62,32,45,65,36,251,152,116,189,7,108,46,202,
     162,159,83,31,154,11,231,106,13,0,217,20,229,102,118,82,85,176,97,214,151,6,4,142,245,
     134,60,225,165,3,39,86,101,90,127,197,72,117,146,47,195,42,128,100,253,174,209,25,239,
     114,219,244,234,163,190,183,235,54,98,153,121,123,38,40,180,179,139,203,70,5,24,43,199,
     224,213,210,220,173,241,23,88,196,79,242,58,9,73,141,160,193,181,19,233,63,80,30,81,
     111,226,175,150,207,222,17,119,230,96,71,87,133,198,95,169,155,212,66,49,205,2,76,115,
     37,194,57,22,223,178,16,12,93,237,240,33,206,69,53,158,148,15,122,136,161,246,201,44,
     171,67,184,109,252,50,170,145,149,140,94,218,156,208,1,129,68,48,254,164,250,167,248,
     125,177,166,232,120,107,99,249,221,52,124,10,211,61,147]"

section \<open>Binary cursor (network::Packet)\<close>

text \<open>
  \<^verbatim>\<open>game/opcodes.hpp\<close> is not among the sources. The enumerators that the sources name are
  the constructors of \<open>Opcode\<close>; every other 16-bit value is \<open>Opcode_other\<close>, which is what
  reaches the \<^verbatim>\<open>default\<close> branch of a \<^verbatim>\<open>switch\<close> over the opcode.
\<close>

datatype Opcode =
    SMSG_AUTH_CHALLENGE | SMSG_AUTH_RESPONSE | SMSG_CHAR_ENUM | SMSG_LOGIN_VERIFY_WORLD
  | SMSG_ACCOUNT_DATA_TIMES | SMSG_MOTD | SMSG_PONG | SMSG_UPDATE_OBJECT
  | SMSG_DESTROY_OBJECT | SMSG_MESSAGECHAT
  | CMSG_AUTH_SESSION | CMSG_CHAR_ENUM | CMSG_PLAYER_LOGIN | CMSG_PING
  | Opcode_other u16

text \<open>
  Modelled from the spec: \<^verbatim>\<open>network::Packet\<close> (packet.hpp and packet.cpp are not among the
  sources). A message is a type tag and a byte payload with a read offset; integers are
  little-endian; reads consume the payload in sequence and advance the offset; the offset can be
  read and set. The parsers of the sources test \<^verbatim>\<open>getSize()\<close> before they read, or not at all,
  and no read there returns an error, so a read is a total function here. What a one-byte read
  returns when the offset is at or past the end is not fixed by anything available: it is the
  parameter \<open>ovr\<close> of every read, and the theorems hold for each choice of it.
\<close>

record Packet =
  pkt_opcode :: Opcode
  pkt_data :: "u8 list"
  pkt_readPos :: nat

type_synonym overrun = "Packet \<Rightarrow> u8 \<times> Packet"

definition getSize :: "Packet \<Rightarrow> nat" where
  "getSize p = length (pkt_data p)"

definition getReadPos :: "Packet \<Rightarrow> nat" where
  "getReadPos p = pkt_readPos p"

definition setReadPos :: "nat \<Rightarrow> Packet \<Rightarrow> Packet" where
  "setReadPos n p = p\<lparr>pkt_readPos := n\<rparr>"

definition readUInt8 :: "overrun \<Rightarrow> Packet \<Rightarrow> u8 \<times> Packet" where
  "readUInt8 ovr p =
     (if pkt_readPos p < length (pkt_data p)
      then (pkt_data p ! pkt_readPos p, p\<lparr>pkt_readPos := pkt_readPos p + 1\<rparr>)
      else ovr p)"

definition readUInt16 :: "overrun \<Rightarrow> Packet \<Rightarrow> u16 \<times> Packet" where
  "readUInt16 ovr p =
     (let (b0, p1) = readUInt8 ovr p;
          (b1, p2) = readUInt8 ovr p1
      in (ucast b0 OR push_bit 8 (ucast b1), p2))"

definition readUInt32 :: "overrun \<Rightarrow> Packet \<Rightarrow> u32 \<times> Packet" where
  "readUInt32 ovr p =
     (let (b0, p1) = readUInt8 ovr p;
          (b1, p2) = readUInt8 ovr p1;
          (b2, p3) = readUInt8 ovr p2;
          (b3, p4) = readUInt8 ovr p3
      in (ucast b0 OR push_bit 8 (ucast b1) OR push_bit 16 (ucast b2) OR push_bit 24 (ucast b3), p4))"

definition readUInt64 :: "overrun \<Rightarrow> Packet \<Rightarrow> u64 \<times> Packet" where
  "readUInt64 ovr p =
     (let (lo, p1) = readUInt32 ovr p;
          (hi, p2) = readUInt32 ovr p1
      in (ucast lo OR push_bit 32 (ucast hi), p2))"

text \<open>A \<^verbatim>\<open>float\<close> is kept as the 32 bits read from the wire; no statement below computes with it.\<close>

type_synonym f32 = u32

definition readFloat :: "overrun \<Rightarrow> Packet \<Rightarrow> f32 \<times> Packet" where
  "readFloat ovr p = readUInt32 ovr p"

text \<open>\<^verbatim>\<open>for (i = 0; i < n; ++i) buffer[i] = packet.readUInt8();\<close>\<close>

fun read_bytes :: "overrun \<Rightarrow> nat \<Rightarrow> Packet \<Rightarrow> u8 list \<times> Packet" where
  "read_bytes ovr 0 p = ([], p)"
| "read_bytes ovr (Suc n) p =
     (let (b, p1) = readUInt8 ovr p;
          (bs, p2) = read_bytes ovr n p1
      in (b # bs, p2))"

text \<open>
  Modelled from the spec: a null-terminated string. The bytes up to the first zero byte (or
  to the end of the payload) are the string; the zero byte, when there is one, is consumed.
\<close>

definition readString :: "Packet \<Rightarrow> u8 list \<times> Packet" where
  "readString p =
     (let r = drop (pkt_readPos p) (pkt_data p);
          s = takeWhile (\<lambda>b. b \<noteq> 0) r
      in (s, p\<lparr>pkt_readPos := pkt_readPos p + min (length s + 1) (length r)\<rparr>))"

text \<open>The write side: little-endian integers, raw bytes and null-terminated strings, appended.\<close>

definition Packet_new :: "Opcode \<Rightarrow> Packet" where
  "Packet_new opc = \<lparr>pkt_opcode = opc, pkt_data = [], pkt_readPos = 0\<rparr>"

definition writeBytes :: "u8 list \<Rightarrow> Packet \<Rightarrow> Packet" where
  "writeBytes bs p = p\<lparr>pkt_data := pkt_data p @ bs\<rparr>"

definition le32 :: "u32 \<Rightarrow> u8 list" where
  "le32 v = [ucast v, ucast (drop_bit 8 v), ucast (drop_bit 16 v), ucast (drop_bit 24 v)]"

definition writeUInt32 :: "u32 \<Rightarrow> Packet \<Rightarrow> Packet" where
  "writeUInt32 v p = writeBytes (le32 v) p"

definition writeUInt64 :: "u64 \<Rightarrow> Packet \<Rightarrow> Packet" where
  "writeUInt64 v p = writeBytes (le32 (ucast v) @ le32 (ucast (drop_bit 32 v))) p"

definition writeString :: "u8 list \<Rightarrow> Packet \<Rightarrow> Packet" where
  "writeString s p = writeBytes (s @ [0]) p"

section \<open>World packets (game/world_packets.cpp)\<close>

text \<open>
  The log keeps the WARNING and ERROR lines of the sources, each as its level and the fixed
  text it starts with, and the DEBUG line that \<^verbatim>\<open>handlePacket\<close> writes for every non-empty
  packet; the other DEBUG and INFO lines are left out. A parser returns the lines it wrote.
\<close>

datatype LogLevel = LOG_DEBUG | LOG_INFO | LOG_WARNING | LOG_ERROR

type_synonym LogLine = "LogLevel \<times> string"

text \<open>
  \<^verbatim>\<open>game/world_packets.hpp\<close> is not among the sources: the numeric values of its
  enumerations and the bodies of the inline predicates \<^verbatim>\<open>isValid\<close> and \<^verbatim>\<open>isSuccess\<close> are
  parameters, collected in the record \<open>Env\<close> together with the overrun behaviour of the
  cursor and the SHA-1 function of \<^verbatim>\<open>auth::Crypto\<close>.
\<close>

datatype UpdateType = VALUES | MOVEMENT | CREATE_OBJECT | CREATE_OBJECT2
  | OUT_OF_RANGE_OBJECTS | NEAR_OBJECTS | UpdateType_other

datatype ObjectType = PLAYER | UNIT | GAMEOBJECT | ObjectType_other u8

datatype ChatType = MONSTER_SAY | MONSTER_YELL | MONSTER_EMOTE | WHISPER_INFORM | CHANNEL
  | ACHIEVEMENT | GUILD_ACHIEVEMENT | ChatType_other

record AuthChallengeData =
  acd_unknown1 :: u32
  acd_serverSeed :: u32

record LoginVerifyWorldData =
  lvw_mapId :: u32
  lvw_x :: f32
  lvw_y :: f32
  lvw_z :: f32
  lvw_orientation :: f32

record Env =
  env_overrun :: overrun
  env_sha1 :: "u8 list \<Rightarrow> u8 list"
  env_updateType :: "u8 \<Rightarrow> UpdateType"
  env_objectType :: "u8 \<Rightarrow> ObjectType"
  env_chatType :: "u8 \<Rightarrow> ChatType"
  env_challenge_isValid :: "AuthChallengeData \<Rightarrow> bool"
  env_response_isSuccess :: "u8 \<Rightarrow> bool"
  env_world_isValid :: "LoginVerifyWorldData \<Rightarrow> bool"
  env_authResultString :: "u8 \<Rightarrow> string"

subsection \<open>CMSG_AUTH_SESSION\<close>

text \<open>\<^verbatim>\<open>::toupper\<close> in the C locale, on the bytes of the account name.\<close>

definition toupper :: "u8 \<Rightarrow> u8" where
  "toupper c = (if 0x61 \<le> c \<and> c \<le> 0x7A then c - 0x20 else c)"

definition computeAuthHash :: "Env \<Rightarrow> u8 list \<Rightarrow> u32 \<Rightarrow> u32 \<Rightarrow> u8 list \<Rightarrow> u8 list" where
  "computeAuthHash w accountName clientSeed serverSeed sessionKey =
     env_sha1 w (accountName @ [0, 0, 0, 0] @ le32 clientSeed @ le32 serverSeed @ sessionKey)"

text \<open>
  \<^verbatim>\<open>AuthSessionPacket::build\<close>. A session key that is not 40 bytes long is reported with an
  ERROR line and the packet is built all the same.
\<close>

definition AuthSessionPacket_build ::
  "Env \<Rightarrow> u32 \<Rightarrow> u8 list \<Rightarrow> u32 \<Rightarrow> u8 list \<Rightarrow> u32 \<Rightarrow> Packet \<times> LogLine list" where
  "AuthSessionPacket_build w build accountName clientSeed sessionKey serverSeed =
     (let upperAccount = map toupper accountName;
          authHash = computeAuthHash w upperAccount clientSeed serverSeed sessionKey;
          p0 = Packet_new CMSG_AUTH_SESSION;
          p1 = writeUInt32 build p0;
          p2 = writeUInt32 0 p1;
          p3 = writeString upperAccount p2;
          p4 = writeUInt32 0 p3;
          p5 = writeUInt32 clientSeed p4;
          p6 = fold (\<lambda>i. writeUInt32 0) [0..<5] p5;
          p7 = writeBytes authHash p6;
          p8 = writeUInt32 0 p7
      in (p8, if length sessionKey \<noteq> 40 then [(LOG_ERROR, ''Invalid session key size: '')] else []))"

definition CharEnumPacket_build :: Packet where
  "CharEnumPacket_build = Packet_new CMSG_CHAR_ENUM"

definition PlayerLoginPacket_build :: "u64 \<Rightarrow> Packet" where
  "PlayerLoginPacket_build characterGuid = writeUInt64 characterGuid (Packet_new CMSG_PLAYER_LOGIN)"

definition PingPacket_build :: "u32 \<Rightarrow> u32 \<Rightarrow> Packet" where
  "PingPacket_build sequence latency = writeUInt32 latency (writeUInt32 sequence (Packet_new CMSG_PING))"

subsection \<open>Parsers of the handshake and of the informational messages\<close>

text \<open>Each parser returns its boolean result, the parsed data and the lines it logged.\<close>

definition AuthChallengeParser_parse ::
  "overrun \<Rightarrow> Packet \<Rightarrow> bool \<times> AuthChallengeData \<times> LogLine list" where
  "AuthChallengeParser_parse ovr p =
     (if getSize p < 8
      then (False, \<lparr>acd_unknown1 = 0, acd_serverSeed = 0\<rparr>,
            [(LOG_ERROR, ''SMSG_AUTH_CHALLENGE packet too small: '')])
      else (let (u1, p1) = readUInt32 ovr p;
                (seed, p2) = readUInt32 ovr p1
            in (True, \<lparr>acd_unknown1 = u1, acd_serverSeed = seed\<rparr>, [])))"

definition AuthResponseParser_parse :: "overrun \<Rightarrow> Packet \<Rightarrow> bool \<times> u8 \<times> LogLine list" where
  "AuthResponseParser_parse ovr p =
     (if getSize p < 1
      then (False, 0, [(LOG_ERROR, ''SMSG_AUTH_RESPONSE packet too small: '')])
      else (True, fst (readUInt8 ovr p), []))"

definition LoginVerifyWorldParser_parse ::
  "overrun \<Rightarrow> Packet \<Rightarrow> bool \<times> LoginVerifyWorldData \<times> LogLine list" where
  "LoginVerifyWorldParser_parse ovr p =
     (if getSize p < 20
      then (False, \<lparr>lvw_mapId = 0, lvw_x = 0, lvw_y = 0, lvw_z = 0, lvw_orientation = 0\<rparr>,
            [(LOG_ERROR, ''SMSG_LOGIN_VERIFY_WORLD packet too small: '')])
      else (let (mapId, p1) = readUInt32 ovr p;
                (x, p2) = readFloat ovr p1;
                (y, p3) = readFloat ovr p2;
                (z, p4) = readFloat ovr p3;
                (orientation, p5) = readFloat ovr p4
            in (True, \<lparr>lvw_mapId = mapId, lvw_x = x, lvw_y = y, lvw_z = z,
                       lvw_orientation = orientation\<rparr>, [])))"

text \<open>
  \<^verbatim>\<open>AccountDataTimesParser::parse\<close> and \<^verbatim>\<open>MotdParser::parse\<close>: the handlers use the parsed
  data for DEBUG and INFO lines only, so the model keeps the boolean result and the ERROR line.
\<close>

definition AccountDataTimesParser_parse :: "Packet \<Rightarrow> bool \<times> LogLine list" where
  "AccountDataTimesParser_parse p =
     (if getSize p < 37 then (False, [(LOG_ERROR, ''SMSG_ACCOUNT_DATA_TIMES packet too small: '')])
      else (True, []))"

definition MotdParser_parse :: "Packet \<Rightarrow> bool \<times> LogLine list" where
  "MotdParser_parse p =
     (if getSize p < 4 then (False, [(LOG_ERROR, ''SMSG_MOTD packet too small: '')])
      else (True, []))"

definition PongParser_parse :: "overrun \<Rightarrow> Packet \<Rightarrow> bool \<times> u32 \<times> LogLine list" where
  "PongParser_parse ovr p =
     (if getSize p < 4 then (False, 0, [(LOG_ERROR, ''SMSG_PONG packet too small: '')])
      else (True, fst (readUInt32 ovr p), []))"

subsection \<open>SMSG_CHAR_ENUM\<close>

record EquipmentItem =
  eq_displayModel :: u32
  eq_inventoryType :: u8
  eq_enchantment :: u32

record Character =
  ch_guid :: u64
  ch_name :: "u8 list"
  ch_race :: u8
  ch_characterClass :: u8
  ch_gender :: u8
  ch_appearanceBytes :: u32
  ch_facialFeatures :: u8
  ch_level :: u8
  ch_zoneId :: u32
  ch_mapId :: u32
  ch_x :: f32
  ch_y :: f32
  ch_z :: f32
  ch_guildId :: u32
  ch_flags :: u32
  ch_pet_displayModel :: u32
  ch_pet_level :: u32
  ch_pet_family :: u32
  ch_equipment :: "EquipmentItem list"

fun read_equipment :: "overrun \<Rightarrow> nat \<Rightarrow> Packet \<Rightarrow> EquipmentItem list \<times> Packet" where
  "read_equipment ovr 0 p = ([], p)"
| "read_equipment ovr (Suc n) p =
     (let (dm, p1) = readUInt32 ovr p;
          (it, p2) = readUInt8 ovr p1;
          (en, p3) = readUInt32 ovr p2;
          (items, p4) = read_equipment ovr n p3
      in (\<lparr>eq_displayModel = dm, eq_inventoryType = it, eq_enchantment = en\<rparr> # items, p4))"

definition read_character :: "overrun \<Rightarrow> Packet \<Rightarrow> Character \<times> Packet" where
  "read_character ovr p =
     (let (guid, p1) = readUInt64 ovr p;
          (name, p2) = readString p1;
          (race, p3) = readUInt8 ovr p2;
          (cls, p4) = readUInt8 ovr p3;
          (gender, p5) = readUInt8 ovr p4;
          (appearance, p6) = readUInt32 ovr p5;
          (facial, p7) = readUInt8 ovr p6;
          (level, p8) = readUInt8 ovr p7;
          (zoneId, p9) = readUInt32 ovr p8;
          (mapId, p10) = readUInt32 ovr p9;
          (x, p11) = readFloat ovr p10;
          (y, p12) = readFloat ovr p11;
          (z, p13) = readFloat ovr p12;
          (guildId, p14) = readUInt32 ovr p13;
          (flags, p15) = readUInt32 ovr p14;
          (customization, p16) = readUInt32 ovr p15;
          (unknown, p17) = readUInt8 ovr p16;
          (petModel, p18) = readUInt32 ovr p17;
          (petLevel, p19) = readUInt32 ovr p18;
          (petFamily, p20) = readUInt32 ovr p19;
          (equipment, p21) = read_equipment ovr 23 p20
      in (\<lparr>ch_guid = guid, ch_name = name, ch_race = race, ch_characterClass = cls,
            ch_gender = gender, ch_appearanceBytes = appearance, ch_facialFeatures = facial,
            ch_level = level, ch_zoneId = zoneId, ch_mapId = mapId, ch_x = x, ch_y = y, ch_z = z,
            ch_guildId = guildId, ch_flags = flags, ch_pet_displayModel = petModel,
            ch_pet_level = petLevel, ch_pet_family = petFamily, ch_equipment = equipment\<rparr>, p21))"

fun read_characters :: "overrun \<Rightarrow> nat \<Rightarrow> Packet \<Rightarrow> Character list \<times> Packet" where
  "read_characters ovr 0 p = ([], p)"
| "read_characters ovr (Suc n) p =
     (let (c, p1) = read_character ovr p;
          (cs, p2) = read_characters ovr n p1
      in (c # cs, p2))"

text \<open>\<^verbatim>\<open>CharEnumParser::parse\<close> has no failing path: it returns \<^verbatim>\<open>true\<close> after the loop.\<close>

definition CharEnumParser_parse :: "overrun \<Rightarrow> Packet \<Rightarrow> bool \<times> Character list \<times> LogLine list" where
  "CharEnumParser_parse ovr p =
     (let (count, p1) = readUInt8 ovr p
      in (True, fst (read_characters ovr (unat count) p1), []))"

subsection \<open>SMSG_MESSAGECHAT and SMSG_DESTROY_OBJECT\<close>

record MessageChatData =
  mc_type :: u8
  mc_language :: u32
  mc_senderGuid :: u64
  mc_senderName :: "u8 list"
  mc_receiverGuid :: u64
  mc_receiverName :: "u8 list"
  mc_channelName :: "u8 list"
  mc_message :: "u8 list"
  mc_chatTag :: u8

definition MessageChatData_new :: MessageChatData where
  "MessageChatData_new = \<lparr>mc_type = 0, mc_language = 0, mc_senderGuid = 0, mc_senderName = [],
     mc_receiverGuid = 0, mc_receiverName = [], mc_channelName = [], mc_message = [],
     mc_chatTag = 0\<rparr>"

text \<open>The branch of the three \<^verbatim>\<open>MONSTER_\<close> chat types: sender name with a length, receiver.\<close>

definition read_monster_sender ::
  "overrun \<Rightarrow> MessageChatData \<Rightarrow> Packet \<Rightarrow> MessageChatData \<times> Packet" where
  "read_monster_sender ovr d p =
     (let (nameLen, p1) = readUInt32 ovr p;
          (d1, p2) = (if 0 < nameLen \<and> nameLen < 256
                      then (let (bs, q) = read_bytes ovr (unat nameLen) p1
                            in (d\<lparr>mc_senderName := bs\<rparr>, q))
                      else (d, p1));
          (rg, p3) = readUInt64 ovr p2
      in (d1\<lparr>mc_receiverGuid := rg\<rparr>, p3))"

definition chat_type_specific ::
  "Env \<Rightarrow> MessageChatData \<Rightarrow> Packet \<Rightarrow> MessageChatData \<times> Packet" where
  "chat_type_specific w d p =
     (case env_chatType w (mc_type d) of
        MONSTER_SAY \<Rightarrow> read_monster_sender (env_overrun w) d p
      | MONSTER_YELL \<Rightarrow> read_monster_sender (env_overrun w) d p
      | MONSTER_EMOTE \<Rightarrow> read_monster_sender (env_overrun w) d p
      | WHISPER_INFORM \<Rightarrow> (let (s, p1) = readString p in (d\<lparr>mc_receiverName := s\<rparr>, p1))
      | CHANNEL \<Rightarrow> (let (s, p1) = readString p in (d\<lparr>mc_channelName := s\<rparr>, p1))
      | ACHIEVEMENT \<Rightarrow> (d, snd (readUInt32 (env_overrun w) p))
      | GUILD_ACHIEVEMENT \<Rightarrow> (d, snd (readUInt32 (env_overrun w) p))
      | ChatType_other \<Rightarrow> (d, p))"

definition MessageChatParser_parse ::
  "Env \<Rightarrow> Packet \<Rightarrow> bool \<times> MessageChatData \<times> LogLine list" where
  "MessageChatParser_parse w p =
     (let ovr = env_overrun w in
      if getSize p < 15
      then (False, MessageChatData_new, [(LOG_ERROR, ''SMSG_MESSAGECHAT packet too small: '')])
      else (let (typeVal, p1) = readUInt8 ovr p;
                (langVal, p2) = readUInt32 ovr p1;
                (sender, p3) = readUInt64 ovr p2;
                (unknown, p4) = readUInt32 ovr p3;
                d0 = MessageChatData_new\<lparr>mc_type := typeVal, mc_language := langVal,
                       mc_senderGuid := sender\<rparr>;
                (d1, p5) = chat_type_specific w d0 p4;
                (messageLen, p6) = readUInt32 ovr p5;
                (d2, p7) = (if 0 < messageLen \<and> messageLen < 8192
                            then (let (bs, q) = read_bytes ovr (unat messageLen) p6
                                  in (d1\<lparr>mc_message := bs\<rparr>, q))
                            else (d1, p6));
                (tag, p8) = readUInt8 ovr p7
            in (True, d2\<lparr>mc_chatTag := tag\<rparr>, [])))"

definition DestroyObjectParser_parse :: "overrun \<Rightarrow> Packet \<Rightarrow> bool \<times> (u64 \<times> bool) \<times> LogLine list" where
  "DestroyObjectParser_parse ovr p =
     (if getSize p < 9
      then (False, (0, False), [(LOG_ERROR, ''SMSG_DESTROY_OBJECT packet too small: '')])
      else (let (guid, p1) = readUInt64 ovr p;
                (d, p2) = readUInt8 ovr p1
            in (True, (guid, d \<noteq> 0), [])))"

subsection \<open>SMSG_UPDATE_OBJECT\<close>

text \<open>
  \<^verbatim>\<open>UpdateBlock\<close>, as the parser and the handler use it. The object type is kept as the byte
  read; the handler's \<^verbatim>\<open>switch\<close> decodes it. \<open>UpdateBlock_new\<close> is the block that
  \<^verbatim>\<open>UpdateBlock block;\<close> declares: no movement, an empty field mapping.
\<close>

record UpdateBlock =
  ub_updateType :: UpdateType
  ub_guid :: u64
  ub_objectType :: u8
  ub_hasMovement :: bool
  ub_x :: f32
  ub_y :: f32
  ub_z :: f32
  ub_orientation :: f32
  ub_fields :: "u16 \<rightharpoonup> u32"

definition UpdateBlock_new :: UpdateBlock where
  "UpdateBlock_new = \<lparr>ub_updateType = VALUES, ub_guid = 0, ub_objectType = 0,
     ub_hasMovement = False, ub_x = 0, ub_y = 0, ub_z = 0, ub_orientation = 0,
     ub_fields = Map.empty\<rparr>"

record UpdateObjectData =
  uod_blockCount :: u32
  uod_outOfRangeGuids :: "u64 list"
  uod_blocks :: "UpdateBlock list"

text \<open>
  \<^verbatim>\<open>readPackedGuid\<close>. One iteration of the loop over \<open>i = 0, ..., 7\<close>, on the pair of the
  identifier so far and the cursor: \<^verbatim>\<open>mask & (1 << i)\<close> is computed in \<^verbatim>\<open>int\<close>.
\<close>

definition guid_step :: "overrun \<Rightarrow> u8 \<Rightarrow> nat \<Rightarrow> u64 \<times> Packet \<Rightarrow> u64 \<times> Packet" where
  "guid_step ovr msk i gp =
     (if (ucast msk :: u32) AND push_bit i 1 \<noteq> 0
      then (let (byte, p') = readUInt8 ovr (snd gp)
            in (fst gp OR push_bit (i * 8) (ucast byte), p'))
      else gp)"

definition readPackedGuid :: "overrun \<Rightarrow> Packet \<Rightarrow> u64 \<times> Packet" where
  "readPackedGuid ovr p =
     (let (msk, p1) = readUInt8 ovr p
      in if msk = 0 then (0, p1)
         else fold (guid_step ovr msk) [0..<8] (0, p1))"

text \<open>\<^verbatim>\<open>parseMovementBlock\<close>: flags, flags2 and time are read and dropped; always \<^verbatim>\<open>true\<close>.\<close>

definition parseMovementBlock :: "overrun \<Rightarrow> Packet \<Rightarrow> UpdateBlock \<Rightarrow> bool \<times> Packet \<times> UpdateBlock" where
  "parseMovementBlock ovr p block =
     (let (flags, p1) = readUInt32 ovr p;
          (flags2, p2) = readUInt16 ovr p1;
          (time, p3) = readUInt32 ovr p2;
          (x, p4) = readFloat ovr p3;
          (y, p5) = readFloat ovr p4;
          (z, p6) = readFloat ovr p5;
          (orientation, p7) = readFloat ovr p6
      in (True, p7, block\<lparr>ub_x := x, ub_y := y, ub_z := z, ub_orientation := orientation,
                         ub_hasMovement := True\<rparr>))"

text \<open>\<^verbatim>\<open>parseUpdateFields\<close>: the loop that reads the mask words.\<close>

fun read_masks :: "overrun \<Rightarrow> nat \<Rightarrow> Packet \<Rightarrow> u32 list \<times> Packet" where
  "read_masks ovr 0 p = ([], p)"
| "read_masks ovr (Suc n) p =
     (let (m, p1) = readUInt32 ovr p;
          (ms, p2) = read_masks ovr n p1
      in (m # ms, p2))"

text \<open>
  The body of the inner loop, for mask word \<open>msk\<close> with index \<open>blockIdx\<close> and bit \<open>b\<close>, on the
  pair of the cursor and the field mapping: \<^verbatim>\<open>if (mask & (1 << bit))\<close>, then
  \<^verbatim>\<open>uint16_t fieldIndex = blockIdx * 32 + bit\<close>, one 32-bit read, \<^verbatim>\<open>block.fields[fieldIndex] = value\<close>.
\<close>

definition field_step ::
  "overrun \<Rightarrow> u32 \<Rightarrow> nat \<Rightarrow> nat \<Rightarrow> Packet \<times> (u16 \<rightharpoonup> u32) \<Rightarrow> Packet \<times> (u16 \<rightharpoonup> u32)" where
  "field_step ovr msk blockIdx b pf =
     (if msk AND push_bit b 1 \<noteq> 0
      then (let fieldIndex = (word_of_nat (blockIdx * 32 + b) :: u16);
                (v, p') = readUInt32 ovr (fst pf)
            in (p', (snd pf)(fieldIndex \<mapsto> v)))
      else pf)"

definition parseUpdateFields :: "overrun \<Rightarrow> Packet \<Rightarrow> UpdateBlock \<Rightarrow> bool \<times> Packet \<times> UpdateBlock" where
  "parseUpdateFields ovr p block =
     (let (blockCount, p1) = readUInt8 ovr p
      in if blockCount = 0 then (True, p1, block)
         else (let (updateMask, p2) = read_masks ovr (unat blockCount) p1;
                   (p3, fs) = fold (\<lambda>blockIdx. fold (field_step ovr (updateMask ! blockIdx) blockIdx) [0..<32])
                                [0..<unat blockCount] (p2, ub_fields block)
               in (True, p3, block\<lparr>ub_fields := fs\<rparr>)))"

text \<open>
  \<^verbatim>\<open>parseUpdateBlock\<close>. The only \<^verbatim>\<open>return false\<close> that can be taken is the \<^verbatim>\<open>default\<close> branch
  (an update type that is none of the six): \<^verbatim>\<open>parseMovementBlock\<close> and
  \<^verbatim>\<open>parseUpdateFields\<close> return \<^verbatim>\<open>true\<close> on every path.
\<close>

definition parse_create :: "overrun \<Rightarrow> Packet \<Rightarrow> UpdateBlock \<Rightarrow> bool \<times> Packet \<times> UpdateBlock" where
  "parse_create ovr p block =
     (let (g, p1) = readPackedGuid ovr p;
          (objectTypeVal, p2) = readUInt8 ovr p1;
          (hasMovement, p3, b3) = parseMovementBlock ovr p2 (block\<lparr>ub_guid := g, ub_objectType := objectTypeVal\<rparr>)
      in if \<not> hasMovement then (False, p3, b3) else parseUpdateFields ovr p3 b3)"

definition parseUpdateBlock ::
  "Env \<Rightarrow> Packet \<Rightarrow> UpdateBlock \<Rightarrow> (bool \<times> Packet \<times> UpdateBlock) \<times> LogLine list" where
  "parseUpdateBlock w p block =
     (let ovr = env_overrun w;
          (updateTypeVal, p1) = readUInt8 ovr p;
          block1 = block\<lparr>ub_updateType := env_updateType w updateTypeVal\<rparr>
      in case ub_updateType block1 of
           VALUES \<Rightarrow>
             (let (g, p2) = readPackedGuid ovr p1
              in (parseUpdateFields ovr p2 (block1\<lparr>ub_guid := g\<rparr>), []))
         | MOVEMENT \<Rightarrow>
             (let (g, p2) = readPackedGuid ovr p1
              in (parseMovementBlock ovr p2 (block1\<lparr>ub_guid := g\<rparr>), []))
         | CREATE_OBJECT \<Rightarrow> (parse_create ovr p1 block1, [])
         | CREATE_OBJECT2 \<Rightarrow> (parse_create ovr p1 block1, [])
         | OUT_OF_RANGE_OBJECTS \<Rightarrow> ((True, p1, block1), [])
         | NEAR_OBJECTS \<Rightarrow> ((True, p1, block1), [])
         | UpdateType_other \<Rightarrow> ((False, p1, block1), [(LOG_WARNING, ''Unknown update type: '')]))"

text \<open>\<^verbatim>\<open>UpdateObjectParser::parse\<close>: the loop over the out-of-range identifiers.\<close>

fun read_guids :: "overrun \<Rightarrow> nat \<Rightarrow> Packet \<Rightarrow> u64 list \<times> Packet" where
  "read_guids ovr 0 p = ([], p)"
| "read_guids ovr (Suc n) p =
     (let (g, p1) = readPackedGuid ovr p;
          (gs, p2) = read_guids ovr n p1
      in (g # gs, p2))"

text \<open>
  The loop over the update blocks, \<open>n\<close> blocks to go. It stops at the first block whose
  parser returns \<^verbatim>\<open>false\<close>, with one ERROR line; the blocks pushed before stay in the data.
\<close>

fun parse_blocks :: "Env \<Rightarrow> nat \<Rightarrow> Packet \<Rightarrow> bool \<times> UpdateBlock list \<times> LogLine list" where
  "parse_blocks w 0 p = (True, [], [])"
| "parse_blocks w (Suc n) p =
     (case parseUpdateBlock w p UpdateBlock_new of
        ((ok, p1, block), l) \<Rightarrow>
          if \<not> ok then (False, [], l @ [(LOG_ERROR, ''Failed to parse update block '')])
          else (case parse_blocks w n p1 of
                  (ok', blocks, l') \<Rightarrow> (ok', block # blocks, l @ l')))"

definition read_out_of_range :: "Env \<Rightarrow> Packet \<Rightarrow> u64 list \<times> Packet" where
  "read_out_of_range w p =
     (if getReadPos p + 1 \<le> getSize p
      then (let (firstByte, p1) = readUInt8 (env_overrun w) p
            in if env_updateType w firstByte = OUT_OF_RANGE_OBJECTS
               then (let (count, p2) = readUInt32 (env_overrun w) p1
                     in read_guids (env_overrun w) (unat count) p2)
               else ([], setReadPos (getReadPos p1 - 1) p1))
      else ([], p))"

definition UpdateObjectParser_parse :: "Env \<Rightarrow> Packet \<Rightarrow> bool \<times> UpdateObjectData \<times> LogLine list" where
  "UpdateObjectParser_parse w p =
     (let (blockCount, p1) = readUInt32 (env_overrun w) p;
          (guids, p2) = read_out_of_range w p1;
          (ok, blocks, l) = parse_blocks w (unat blockCount) p2
      in (ok, \<lparr>uod_blockCount = blockCount, uod_outOfRangeGuids = guids, uod_blocks = blocks\<rparr>, l))"

section \<open>Session state machine (game/game_handler.hpp, game_handler.cpp)\<close>

datatype WorldState =
    DISCONNECTED | CONNECTING | CONNECTED | CHALLENGE_RECEIVED | AUTH_SENT | AUTHENTICATED
  | READY | CHAR_LIST_REQUESTED | CHAR_LIST_RECEIVED | ENTERING_WORLD | IN_WORLD | FAILED

text \<open>
  The entity classes (entity.hpp) are not among the sources; an entity is what the handler
  does to it: it is constructed for an identifier with the type of the block, its position is
  set when the block has movement, and \<^verbatim>\<open>setField\<close> stores a value under a field index.
  \<^verbatim>\<open>EntityManager\<close> is a table from identifiers to entities.
\<close>

record Entity =
  ent_guid :: u64
  ent_type :: ObjectType
  ent_position :: "(f32 \<times> f32 \<times> f32 \<times> f32) option"
  ent_fields :: "u16 \<rightharpoonup> u32"

text \<open>
  \<^verbatim>\<open>network::WorldSocket\<close> is the transport; the model records the calls made on it, and the
  result of its \<^verbatim>\<open>connect\<close> is an argument of \<open>connect\<close>. One trace holds, in the order they
  happen, the calls on the socket, the log lines and the calls of the two callbacks.
\<close>

datatype SocketCall =
    SC_setPacketCallback
  | SC_connect "u8 list" u16
  | SC_send Packet
  | SC_initEncryption "u8 list"

datatype Event = Log LogLevel string | Socket SocketCall | OnSuccess | OnFailure string

record MovementInfo =
  mi_flags :: u32
  mi_flags2 :: u16
  mi_time :: u32
  mi_x :: f32
  mi_y :: f32
  mi_z :: f32
  mi_orientation :: f32

text \<open>
  The members of \<^verbatim>\<open>GameHandler\<close> that the modelled functions read or write. \<open>gh_socket\<close>
  tells whether the socket object exists; \<open>gh_onSuccess\<close> and \<open>gh_onFailure\<close> tell whether
  the callback is set.
\<close>

record GameHandler =
  gh_socket :: bool
  gh_state :: WorldState
  gh_sessionKey :: "u8 list"
  gh_accountName :: "u8 list"
  gh_build :: u32
  gh_clientSeed :: u32
  gh_serverSeed :: u32
  gh_characters :: "Character list"
  gh_movementInfo :: MovementInfo
  gh_entityManager :: "u64 \<rightharpoonup> Entity"
  gh_chatHistory :: "MessageChatData list"
  gh_maxChatHistory :: nat
  gh_tabCycleStale :: bool
  gh_pingSequence :: u32
  gh_lastLatency :: u32
  gh_onSuccess :: bool
  gh_onFailure :: bool
  gh_trace :: "Event list"

definition emit :: "Event list \<Rightarrow> GameHandler \<Rightarrow> GameHandler" where
  "emit es gh = gh\<lparr>gh_trace := gh_trace gh @ es\<rparr>"

definition log_lines :: "LogLine list \<Rightarrow> GameHandler \<Rightarrow> GameHandler" where
  "log_lines ls gh = emit (map (\<lambda>l. Log (fst l) (snd l)) ls) gh"

definition setState :: "WorldState \<Rightarrow> GameHandler \<Rightarrow> GameHandler" where
  "setState newState gh = (if gh_state gh \<noteq> newState then gh\<lparr>gh_state := newState\<rparr> else gh)"

definition fail :: "string \<Rightarrow> GameHandler \<Rightarrow> GameHandler" where
  "fail reason gh =
     (let gh1 = emit [Log LOG_ERROR ''World connection failed: ''] gh;
          gh2 = setState FAILED gh1
      in if gh_onFailure gh2 then emit [OnFailure reason] gh2 else gh2)"

text \<open>
  \<^verbatim>\<open>GameHandler::connect\<close>. \<open>seed\<close> is what \<^verbatim>\<open>generateClientSeed()\<close> returns and \<open>connected\<close>
  what \<^verbatim>\<open>socket->connect(host, port)\<close> returns.
\<close>

definition connect ::
  "u8 list \<Rightarrow> u16 \<Rightarrow> u8 list \<Rightarrow> u8 list \<Rightarrow> u32 \<Rightarrow> u32 \<Rightarrow> bool \<Rightarrow> GameHandler \<Rightarrow> bool \<times> GameHandler" where
  "connect host port sessionKey accountName build seed connected gh =
     (if length sessionKey \<noteq> 40
      then (False, fail ''Invalid session key'' (emit [Log LOG_ERROR ''Invalid session key size: ''] gh))
      else (let gh1 = gh\<lparr>gh_sessionKey := sessionKey, gh_accountName := accountName,
                         gh_build := build, gh_clientSeed := seed\<rparr>;
                gh2 = emit [Socket SC_setPacketCallback] (gh1\<lparr>gh_socket := True\<rparr>);
                gh3 = setState CONNECTING gh2;
                gh4 = emit [Socket (SC_connect host port)] gh3
            in if \<not> connected
               then (False, fail ''Connection failed''
                              (emit [Log LOG_ERROR ''Failed to connect to world server''] gh4))
               else (True, setState CONNECTED gh4)))"

text \<open>\<^verbatim>\<open>GameHandler::sendAuthSession\<close>: build, send, then initialise the header cipher.\<close>

definition sendAuthSession :: "Env \<Rightarrow> GameHandler \<Rightarrow> GameHandler" where
  "sendAuthSession w gh =
     (let (packet, l) = AuthSessionPacket_build w (gh_build gh) (gh_accountName gh)
                          (gh_clientSeed gh) (gh_sessionKey gh) (gh_serverSeed gh);
          gh1 = log_lines l gh;
          gh2 = emit [Socket (SC_send packet)] gh1;
          gh3 = emit [Socket (SC_initEncryption (gh_sessionKey gh2))] gh2
      in setState AUTH_SENT gh3)"

definition handleAuthChallenge :: "Env \<Rightarrow> Packet \<Rightarrow> GameHandler \<Rightarrow> GameHandler" where
  "handleAuthChallenge w p gh =
     (let (ok, challenge, l) = AuthChallengeParser_parse (env_overrun w) p;
          gh1 = log_lines l gh
      in if \<not> ok then fail ''Failed to parse SMSG_AUTH_CHALLENGE'' gh1
         else if \<not> env_challenge_isValid w challenge then fail ''Invalid auth challenge data'' gh1
         else sendAuthSession w
                (setState CHALLENGE_RECEIVED (gh1\<lparr>gh_serverSeed := acd_serverSeed challenge\<rparr>)))"

definition handleAuthResponse :: "Env \<Rightarrow> Packet \<Rightarrow> GameHandler \<Rightarrow> GameHandler" where
  "handleAuthResponse w p gh =
     (let (ok, result, l) = AuthResponseParser_parse (env_overrun w) p;
          gh1 = log_lines l gh
      in if \<not> ok then fail ''Failed to parse SMSG_AUTH_RESPONSE'' gh1
         else if \<not> env_response_isSuccess w result
         then fail (''Authentication failed: '' @ env_authResultString w result) gh1
         else (let gh2 = setState READY (setState AUTHENTICATED gh1)
               in if gh_onSuccess gh2 then emit [OnSuccess] gh2 else gh2))"

definition requestCharacterList :: "GameHandler \<Rightarrow> GameHandler" where
  "requestCharacterList gh =
     (if gh_state gh \<noteq> READY \<and> gh_state gh \<noteq> AUTHENTICATED
      then emit [Log LOG_WARNING ''Cannot request character list in state: ''] gh
      else setState CHAR_LIST_REQUESTED (emit [Socket (SC_send CharEnumPacket_build)] gh))"

definition handleCharEnum :: "Env \<Rightarrow> Packet \<Rightarrow> GameHandler \<Rightarrow> GameHandler" where
  "handleCharEnum w p gh =
     (let (ok, chars, l) = CharEnumParser_parse (env_overrun w) p;
          gh1 = log_lines l gh
      in if \<not> ok then fail ''Failed to parse SMSG_CHAR_ENUM'' gh1
         else setState CHAR_LIST_RECEIVED (gh1\<lparr>gh_characters := chars\<rparr>))"

definition selectCharacter :: "u64 \<Rightarrow> GameHandler \<Rightarrow> GameHandler" where
  "selectCharacter characterGuid gh =
     (if gh_state gh \<noteq> CHAR_LIST_RECEIVED
      then emit [Log LOG_WARNING ''Cannot select character in state: ''] gh
      else setState ENTERING_WORLD
             (emit [Socket (SC_send (PlayerLoginPacket_build characterGuid))] gh))"

definition handleLoginVerifyWorld :: "Env \<Rightarrow> Packet \<Rightarrow> GameHandler \<Rightarrow> GameHandler" where
  "handleLoginVerifyWorld w p gh =
     (let (ok, d, l) = LoginVerifyWorldParser_parse (env_overrun w) p;
          gh1 = log_lines l gh
      in if \<not> ok then fail ''Failed to parse SMSG_LOGIN_VERIFY_WORLD'' gh1
         else if \<not> env_world_isValid w d then fail ''Invalid world entry data'' gh1
         else (let gh2 = setState IN_WORLD gh1
               in gh2\<lparr>gh_movementInfo := (gh_movementInfo gh2)\<lparr>mi_x := lvw_x d, mi_y := lvw_y d,
                        mi_z := lvw_z d, mi_orientation := lvw_orientation d,
                        mi_flags := 0, mi_flags2 := 0, mi_time := 0\<rparr>\<rparr>))"

definition handleAccountDataTimes :: "Packet \<Rightarrow> GameHandler \<Rightarrow> GameHandler" where
  "handleAccountDataTimes p gh =
     (let (ok, l) = AccountDataTimesParser_parse p;
          gh1 = log_lines l gh
      in if \<not> ok then emit [Log LOG_WARNING ''Failed to parse SMSG_ACCOUNT_DATA_TIMES''] gh1
         else gh1)"

definition handleMotd :: "Packet \<Rightarrow> GameHandler \<Rightarrow> GameHandler" where
  "handleMotd p gh =
     (let (ok, l) = MotdParser_parse p;
          gh1 = log_lines l gh
      in if \<not> ok then emit [Log LOG_WARNING ''Failed to parse SMSG_MOTD''] gh1
         else gh1)"

definition sendPing :: "GameHandler \<Rightarrow> GameHandler" where
  "sendPing gh =
     (if gh_state gh \<noteq> IN_WORLD then gh
      else (let gh1 = gh\<lparr>gh_pingSequence := gh_pingSequence gh + 1\<rparr>
            in emit [Socket (SC_send (PingPacket_build (gh_pingSequence gh1) (gh_lastLatency gh1)))] gh1))"

definition handlePong :: "Env \<Rightarrow> Packet \<Rightarrow> GameHandler \<Rightarrow> GameHandler" where
  "handlePong w p gh =
     (let (ok, sequence, l) = PongParser_parse (env_overrun w) p;
          gh1 = log_lines l gh
      in if \<not> ok then emit [Log LOG_WARNING ''Failed to parse SMSG_PONG''] gh1
         else if sequence \<noteq> gh_pingSequence gh1
         then emit [Log LOG_WARNING ''SMSG_PONG sequence mismatch: expected ''] gh1
         else gh1)"

subsection \<open>Entity messages\<close>

text \<open>\<^verbatim>\<open>for (guid : data.outOfRangeGuids) if (hasEntity(guid)) removeEntity(guid);\<close>\<close>

definition remove_out_of_range :: "u64 list \<Rightarrow> (u64 \<rightharpoonup> Entity) \<Rightarrow> (u64 \<rightharpoonup> Entity)" where
  "remove_out_of_range guids em =
     fold (\<lambda>guid m. if m guid \<noteq> None then m(guid := None) else m) guids em"

text \<open>
  The body of the loop over the parsed blocks, on the pair of the entity table and the lines
  logged so far. A created entity has the type of the block, in each of the four branches of
  the inner \<^verbatim>\<open>switch\<close>; \<^verbatim>\<open>setField\<close> is applied for every field of the block.
\<close>

definition create_entity :: "Env \<Rightarrow> UpdateBlock \<Rightarrow> Entity" where
  "create_entity w block =
     \<lparr>ent_guid = ub_guid block,
      ent_type = env_objectType w (ub_objectType block),
      ent_position = (if ub_hasMovement block
                      then Some (ub_x block, ub_y block, ub_z block, ub_orientation block)
                      else None),
      ent_fields = Map.empty ++ ub_fields block\<rparr>"

definition apply_block ::
  "Env \<Rightarrow> UpdateBlock \<Rightarrow> (u64 \<rightharpoonup> Entity) \<times> LogLine list \<Rightarrow> (u64 \<rightharpoonup> Entity) \<times> LogLine list" where
  "apply_block w block eml =
     (let em = fst eml; l = snd eml in
      case ub_updateType block of
        CREATE_OBJECT \<Rightarrow> (em(ub_guid block \<mapsto> create_entity w block), l)
      | CREATE_OBJECT2 \<Rightarrow> (em(ub_guid block \<mapsto> create_entity w block), l)
      | VALUES \<Rightarrow>
          (case em (ub_guid block) of
             Some e \<Rightarrow> (em(ub_guid block \<mapsto> e\<lparr>ent_fields := ent_fields e ++ ub_fields block\<rparr>), l)
           | None \<Rightarrow> (em, l @ [(LOG_WARNING, ''VALUES update for unknown entity: 0x'')]))
      | MOVEMENT \<Rightarrow>
          (case em (ub_guid block) of
             Some e \<Rightarrow> (em(ub_guid block \<mapsto> e\<lparr>ent_position :=
                           Some (ub_x block, ub_y block, ub_z block, ub_orientation block)\<rparr>), l)
           | None \<Rightarrow> (em, l @ [(LOG_WARNING, ''MOVEMENT update for unknown entity: 0x'')]))
      | _ \<Rightarrow> (em, l))"

text \<open>
  \<^verbatim>\<open>GameHandler::handleUpdateObject\<close>: when the parser returns \<^verbatim>\<open>false\<close> the handler writes one
  WARNING line and returns; otherwise the out-of-range identifiers are removed first and the
  blocks are applied in order.
\<close>

definition handleUpdateObject :: "Env \<Rightarrow> Packet \<Rightarrow> GameHandler \<Rightarrow> GameHandler" where
  "handleUpdateObject w p gh =
     (let (ok, d, l) = UpdateObjectParser_parse w p;
          gh1 = log_lines l gh
      in if \<not> ok then emit [Log LOG_WARNING ''Failed to parse SMSG_UPDATE_OBJECT''] gh1
         else (let em1 = remove_out_of_range (uod_outOfRangeGuids d) (gh_entityManager gh1);
                   (em2, l2) = fold (apply_block w) (uod_blocks d) (em1, [])
               in log_lines l2 (gh1\<lparr>gh_entityManager := em2, gh_tabCycleStale := True\<rparr>)))"

definition handleDestroyObject :: "Env \<Rightarrow> Packet \<Rightarrow> GameHandler \<Rightarrow> GameHandler" where
  "handleDestroyObject w p gh =
     (let (ok, d, l) = DestroyObjectParser_parse (env_overrun w) p;
          gh1 = log_lines l gh
      in if \<not> ok then emit [Log LOG_WARNING ''Failed to parse SMSG_DESTROY_OBJECT''] gh1
         else (let gh2 = (if gh_entityManager gh1 (fst d) \<noteq> None
                          then gh1\<lparr>gh_entityManager := (gh_entityManager gh1)(fst d := None)\<rparr>
                          else emit [Log LOG_WARNING ''Destroy object for unknown entity: 0x''] gh1)
               in gh2\<lparr>gh_tabCycleStale := True\<rparr>))"

text \<open>
  \<^verbatim>\<open>GameHandler::handleMessageChat\<close>: the message is appended to the history, and the oldest
  one is erased when the history has grown past its maximum.
\<close>

definition handleMessageChat :: "Env \<Rightarrow> Packet \<Rightarrow> GameHandler \<Rightarrow> GameHandler" where
  "handleMessageChat w p gh =
     (let (ok, d, l) = MessageChatParser_parse w p;
          gh1 = log_lines l gh
      in if \<not> ok then emit [Log LOG_WARNING ''Failed to parse SMSG_MESSAGECHAT''] gh1
         else (let h = gh_chatHistory gh1 @ [d]
               in gh1\<lparr>gh_chatHistory := (if length h > gh_maxChatHistory gh1 then tl h else h)\<rparr>))"

subsection \<open>Dispatch\<close>

text \<open>
  \<^verbatim>\<open>GameHandler::handlePacket\<close>: an empty packet is logged and dropped; otherwise the DEBUG
  line, then the \<^verbatim>\<open>switch\<close> over the opcode with its guards on the state.
\<close>

definition handlePacket :: "Env \<Rightarrow> Packet \<Rightarrow> GameHandler \<Rightarrow> GameHandler" where
  "handlePacket w p gh0 =
     (if getSize p < 1 then emit [Log LOG_WARNING ''Received empty packet''] gh0
      else (let gh = emit [Log LOG_DEBUG ''Received world packet: opcode=0x''] gh0 in
        case pkt_opcode p of
          SMSG_AUTH_CHALLENGE \<Rightarrow>
            if gh_state gh = CONNECTED then handleAuthChallenge w p gh
            else emit [Log LOG_WARNING ''Unexpected SMSG_AUTH_CHALLENGE in state: ''] gh
        | SMSG_AUTH_RESPONSE \<Rightarrow>
            if gh_state gh = AUTH_SENT then handleAuthResponse w p gh
            else emit [Log LOG_WARNING ''Unexpected SMSG_AUTH_RESPONSE in state: ''] gh
        | SMSG_CHAR_ENUM \<Rightarrow>
            if gh_state gh = CHAR_LIST_REQUESTED then handleCharEnum w p gh
            else emit [Log LOG_WARNING ''Unexpected SMSG_CHAR_ENUM in state: ''] gh
        | SMSG_LOGIN_VERIFY_WORLD \<Rightarrow>
            if gh_state gh = ENTERING_WORLD then handleLoginVerifyWorld w p gh
            else emit [Log LOG_WARNING ''Unexpected SMSG_LOGIN_VERIFY_WORLD in state: ''] gh
        | SMSG_ACCOUNT_DATA_TIMES \<Rightarrow> handleAccountDataTimes p gh
        | SMSG_MOTD \<Rightarrow> handleMotd p gh
        | SMSG_PONG \<Rightarrow> handlePong w p gh
        | SMSG_UPDATE_OBJECT \<Rightarrow>
            if gh_state gh = IN_WORLD then handleUpdateObject w p gh else gh
        | SMSG_DESTROY_OBJECT \<Rightarrow>
            if gh_state gh = IN_WORLD then handleDestroyObject w p gh else gh
        | SMSG_MESSAGECHAT \<Rightarrow>
            if gh_state gh = IN_WORLD then handleMessageChat w p gh else gh
        | _ \<Rightarrow> emit [Log LOG_WARNING ''Unhandled world opcode: 0x''] gh))"


definition is_log :: "Event \<Rightarrow> bool" where
  "is_log e = (case e of Log lv t \<Rightarrow> True | _ \<Rightarrow> False)"

subsection \<open>Runs of a session\<close>

text \<open>
  What drives a connected session: an inbound message delivered by the socket's callback, and
  the calls of the application that send a message.
\<close>

datatype Input = Inbound Packet | RequestCharacterList | SelectCharacter u64 | SendPing

fun step :: "Env \<Rightarrow> Input \<Rightarrow> GameHandler \<Rightarrow> GameHandler" where
  "step w (Inbound p) gh = handlePacket w p gh"
| "step w RequestCharacterList gh = requestCharacterList gh"
| "step w (SelectCharacter g) gh = selectCharacter g gh"
| "step w SendPing gh = sendPing gh"

definition run :: "Env \<Rightarrow> Input list \<Rightarrow> GameHandler \<Rightarrow> GameHandler" where
  "run w inputs gh = fold (step w) inputs gh"

text \<open>
  The ordering rule on a trace, for session key \<open>k\<close>: a send of the credentials message is
  followed at once by the initialisation of the cipher with \<open>k\<close>, with no other call on the
  socket and no log line of an interpreted message in between, and the cipher is
  initialised nowhere else.
\<close>

fun cipher_order :: "u8 list \<Rightarrow> Event list \<Rightarrow> bool" where
  "cipher_order k [] = True"
| "cipher_order k (Socket (SC_send p) # es) =
     (if pkt_opcode p = CMSG_AUTH_SESSION
      then (case es of
              Socket (SC_initEncryption k') # es' \<Rightarrow> k' = k \<and> cipher_order k es'
            | _ \<Rightarrow> False)
      else cipher_order k es)"
| "cipher_order k (Socket (SC_initEncryption k') # es) = False"
| "cipher_order k (e # es) = cipher_order k es"

section \<open>Stream framer of the authentication socket (network/tcp_socket.hpp)\<close>

text \<open>
  Modelled from the spec: \<^verbatim>\<open>TCPSocket::getExpectedPacketSize\<close>. The header tcp_socket.hpp
  declares it, tcp_socket.cpp is not among the sources; docs/packet-framing.md gives the
  sizes. The leading byte of the receive buffer is the type tag. A challenge response (tag
  0x00) has its status at offset 2: a failure is 3 bytes; a success has the length of g at
  offset 35 and the length of N right after g, and is \<open>36 + gLen + 1 + nLen + 32 + 16 + 1\<close>
  bytes. A proof response (tag 0x01) has its status at offset 1 and is 22 bytes on success, 2
  otherwise. The realm list (tag 0x10) and every other tag give 0. The result is 0 as well
  when the bytes that decide the size are not buffered yet: nothing is consumed then.
\<close>

definition getExpectedPacketSize :: "u8 list \<Rightarrow> nat" where
  "getExpectedPacketSize buf =
     (if buf = [] then 0
      else if hd buf = 0x00 then
        (if length buf < 3 then 0
         else if buf ! 2 = 0x00 then
           (if length buf < 36 then 0
            else (let gLen = unat (buf ! 35) in
                  if length buf < 36 + gLen + 1 then 0
                  else (let nLen = unat (buf ! (36 + gLen))
                        in 36 + gLen + 1 + nLen + 32 + 16 + 1)))
         else 3)
      else if hd buf = 0x01 then
        (if length buf < 2 then 0 else if buf ! 1 = 0x00 then 22 else 2)
      else 0)"

text \<open>
  Modelled from the spec: \<^verbatim>\<open>TCPSocket::tryParsePackets\<close>, the loop of
  docs/packet-framing.md. While the buffer is not empty: the expected size of the leading
  message; stop when it is 0 or more than what is buffered; otherwise slice the message out
  (its tag and its bytes), remove the consumed bytes and go on. The result is the messages
  delivered to the callback, in order, and the buffer that is left.
\<close>

type_synonym AuthMessage = "u8 \<times> u8 list"

function tryParsePackets :: "u8 list \<Rightarrow> AuthMessage list \<times> u8 list" where
  "tryParsePackets buf =
     (if length buf \<ge> 1 \<and> getExpectedPacketSize buf \<noteq> 0
         \<and> \<not> length buf < getExpectedPacketSize buf
      then (let n = getExpectedPacketSize buf;
                r = tryParsePackets (drop n buf)
            in ((hd buf, take n buf) # fst r, snd r))
      else ([], buf))"
  by pat_completeness auto
termination
  by (relation "measure length") auto

text \<open>
  Modelled from the spec: one poll of \<^verbatim>\<open>TCPSocket::update\<close> that received the bytes \<open>chunk\<close>:
  they are appended to the receive buffer and the loop runs. \<open>feed\<close> is a sequence of polls,
  one per chunk, with the messages of all of them in order.
\<close>

definition socket_update :: "u8 list \<Rightarrow> u8 list \<Rightarrow> AuthMessage list \<times> u8 list" where
  "socket_update chunk receiveBuffer = tryParsePackets (receiveBuffer @ chunk)"

fun feed :: "u8 list list \<Rightarrow> u8 list \<Rightarrow> AuthMessage list \<times> u8 list" where
  "feed [] receiveBuffer = ([], receiveBuffer)"
| "feed (chunk # chunks) receiveBuffer =
     (let r1 = socket_update chunk receiveBuffer;
          r2 = feed chunks (snd r1)
      in (fst r1 @ fst r2, snd r2))"

section \<open>SRP6a key exchange (auth/big_num.hpp, auth/srp.hpp)\<close>




















section \<open>Reference encodings and auxiliary notions of the statements\<close>

text \<open>The unread part of a packet, and the cursor moved forward by \<open>k\<close> bytes.\<close>

definition rest :: "Packet \<Rightarrow> u8 list" where
  "rest p = drop (pkt_readPos p) (pkt_data p)"

definition advance :: "nat \<Rightarrow> Packet \<Rightarrow> Packet" where
  "advance k p = p\<lparr>pkt_readPos := pkt_readPos p + k\<rparr>"

text \<open>
  The reference packed-identifier encoding, after the words of the specification: byte \<open>i\<close> of
  the identifier is its bits \<open>8i, ..., 8i + 7\<close>; the mask byte has bit \<open>i\<close> set exactly when
  byte \<open>i\<close> is not zero; after the mask come the non-zero bytes, lowest position first.
\<close>

definition guid_byte :: "u64 \<Rightarrow> nat \<Rightarrow> u8" where
  "guid_byte g i = ucast (drop_bit (8 * i) g)"

definition guid_mask :: "u64 \<Rightarrow> u8" where
  "guid_mask g = fold (\<lambda>i m. if guid_byte g i \<noteq> 0 then m OR push_bit i 1 else m) [0..<8] 0"

definition nz_bytes :: "u64 \<Rightarrow> nat \<Rightarrow> nat \<Rightarrow> u8 list" where
  "nz_bytes g i j = filter (\<lambda>b. b \<noteq> 0) (map (guid_byte g) [i..<j])"

definition encodePackedGuid :: "u64 \<Rightarrow> u8 list" where
  "encodePackedGuid g = guid_mask g # nz_bytes g 0 8"

text \<open>
  The bitmask field encoding, after the words of the specification: the set bits of a mask
  word, least significant first; the global field indices \<open>wordIndex * 32 + bitIndex\<close> of a
  list of mask words, in mask-word order; and the field mapping after the values have been
  recorded against the indices, one value per index, in that order.
\<close>

definition set_bits_of :: "u32 \<Rightarrow> nat list" where
  "set_bits_of m = filter (\<lambda>b. bit m b) [0..<32]"

definition field_indices :: "u32 list \<Rightarrow> nat list" where
  "field_indices masks =
     concat (map (\<lambda>w. map (\<lambda>b. w * 32 + b) (set_bits_of (masks ! w))) [0..<length masks])"

definition record_fields :: "nat list \<Rightarrow> u32 list \<Rightarrow> (u16 \<rightharpoonup> u32) \<Rightarrow> (u16 \<rightharpoonup> u32)" where
  "record_fields idxs vals fs = fold (\<lambda>iv f. f(word_of_nat (fst iv) \<mapsto> snd iv)) (zip idxs vals) fs"


text \<open>
  The events of a list that neither send the credentials message nor initialise the cipher.
\<close>

fun quiet_event :: "Event \<Rightarrow> bool" where
  "quiet_event (Socket (SC_send p)) = (pkt_opcode p \<noteq> CMSG_AUTH_SESSION)"
| "quiet_event (Socket (SC_initEncryption k)) = False"
| "quiet_event e = True"

text \<open>
  One instance of the parameters, for running the model on concrete inputs: an overrun read
  returns 0 and leaves the cursor; the digest is a fixed 20-byte value; the update types are
  numbered 0 to 5 in the order of the enumeration, the object types 3, 4 and 5 are unit,
  player and game object, the chat types are numbered as in the 3.3.5a protocol; a challenge is
  valid when its seed is not 0, a response is a success when its code is 12, and a world
  entry is always valid.
\<close>

definition overrun_zero :: overrun where
  "overrun_zero p = (0, p)"

definition env_test :: Env where
  "env_test = \<lparr>
     env_overrun = overrun_zero,
     env_sha1 = (\<lambda>bs. replicate 20 (word_of_nat (length bs))),
     env_updateType = (\<lambda>b. if b = 0 then VALUES else if b = 1 then MOVEMENT
        else if b = 2 then CREATE_OBJECT else if b = 3 then CREATE_OBJECT2
        else if b = 4 then OUT_OF_RANGE_OBJECTS else if b = 5 then NEAR_OBJECTS
        else UpdateType_other),
     env_objectType = (\<lambda>b. if b = 3 then UNIT else if b = 4 then PLAYER
        else if b = 5 then GAMEOBJECT else ObjectType_other b),
     env_chatType = (\<lambda>b. if b = 12 then MONSTER_SAY else if b = 14 then MONSTER_YELL
        else if b = 16 then MONSTER_EMOTE else if b = 9 then WHISPER_INFORM
        else if b = 17 then CHANNEL else if b = 48 then ACHIEVEMENT
        else if b = 49 then GUILD_ACHIEVEMENT else ChatType_other),
     env_challenge_isValid = (\<lambda>c. acd_serverSeed c \<noteq> 0),
     env_response_isSuccess = (\<lambda>r. r = 12),
     env_world_isValid = (\<lambda>d. True),
     env_authResultString = (\<lambda>r. ''UNKNOWN - Unknown result code'')\<rparr>"

text \<open>The handler as its constructor leaves it, from the default member initialisers.\<close>

definition GameHandler_new :: GameHandler where
  "GameHandler_new = \<lparr>gh_socket = False, gh_state = DISCONNECTED, gh_sessionKey = [],
     gh_accountName = [], gh_build = 12340, gh_clientSeed = 0, gh_serverSeed = 0,
     gh_characters = [],
     gh_movementInfo = \<lparr>mi_flags = 0, mi_flags2 = 0, mi_time = 0, mi_x = 0, mi_y = 0, mi_z = 0,
       mi_orientation = 0\<rparr>,
     gh_entityManager = Map.empty, gh_chatHistory = [], gh_maxChatHistory = 100,
     gh_tabCycleStale = True, gh_pingSequence = 0, gh_lastLatency = 0,
     gh_onSuccess = False, gh_onFailure = False, gh_trace = []\<rparr>"

section \<open>The RC4 test vector\<close>

text \<open>The key schedule for the key \<open>Key\<close> (4B 65 79), evaluated in four runs of 64 iterations.\<close>

lemma ksa_Key_0_64:
  "fold (ksa_step [0x4B, 0x65, 0x79]) [0..<64]
    (0, identity_state) =
    (251,
    [75,177,44,58,46,16,178,30,159,243,98,230,61,175,54,144,97,143,236,100,241,81,204,92,
     191,12,208,14,183,77,8,35,188,40,13,71,182,64,223,48,215,121,238,126,249,53,227,55,21,
     189,104,11,127,113,147,172,224,19,122,28,62,32,45,251,37,65,66,67,68,69,70,31,72,73,74,
     0,76,29,78,79,80,39,82,83,84,85,86,87,88,89,90,91,23,93,94,95,96,5,10,99,57,101,102,
     103,50,105,106,107,108,109,110,111,112,60,114,115,116,117,118,119,120,41,3,123,124,125,
     43,52,128,129,130,131,132,133,134,135,136,137,138,139,140,141,142,17,15,145,146,27,148,
     149,150,151,152,153,154,155,156,157,158,7,160,161,162,163,164,165,166,167,168,169,170,
     171,47,173,174,34,176,1,6,179,180,181,36,59,184,185,186,187,25,49,190,24,192,193,194,
     195,196,197,198,199,200,201,202,203,22,205,206,207,26,209,210,211,212,213,214,33,216,
     217,218,219,220,221,222,38,56,225,226,4,228,229,51,231,232,233,234,235,18,237,42,239,
     240,20,242,9,244,245,246,247,248,2,250,63,252,253,254,255])"
  by code_simp

lemma ksa_Key_64_128:
  "fold (ksa_step [0x4B, 0x65, 0x79]) [64..<128]
    (251,
    [75,177,44,58,46,16,178,30,159,243,98,230,61,175,54,144,97,143,236,100,241,81,204,92,
     191,12,208,14,183,77,8,35,188,40,13,71,182,64,223,48,215,121,238,126,249,53,227,55,21,
     189,104,11,127,113,147,172,224,19,122,28,62,32,45,251,37,65,66,67,68,69,70,31,72,73,74,
     0,76,29,78,79,80,39,82,83,84,85,86,87,88,89,90,91,23,93,94,95,96,5,10,99,57,101,102,
     103,50,105,106,107,108,109,110,111,112,60,114,115,116,117,118,119,120,41,3,123,124,125,
     43,52,128,129,130,131,132,133,134,135,136,137,138,139,140,141,142,17,15,145,146,27,148,
     149,150,151,152,153,154,155,156,157,158,7,160,161,162,163,164,165,166,167,168,169,170,
     171,47,173,174,34,176,1,6,179,180,181,36,59,184,185,186,187,25,49,190,24,192,193,194,
     195,196,197,198,199,200,201,202,203,22,205,206,207,26,209,210,211,212,213,214,33,216,
     217,218,219,220,221,222,38,56,225,226,4,228,229,51,231,232,233,234,235,18,237,42,239,
     240,20,242,9,244,245,246,247,248,2,250,63,252,253,254,255]) =
    (122,
    [75,177,44,58,76,16,178,30,74,243,98,94,61,112,54,144,91,143,236,10,241,81,204,92,191,
     12,208,14,87,77,8,35,188,40,103,71,182,64,223,48,215,99,238,126,249,53,227,55,21,68,
     104,78,107,113,147,172,111,19,122,28,62,32,45,65,133,251,22,116,189,73,108,46,93,193,
     159,83,31,154,11,231,106,13,0,217,20,171,102,115,82,85,176,97,160,151,230,4,142,120,
     123,121,199,165,3,39,205,129,90,127,197,72,43,224,175,194,52,183,100,211,174,158,248,
     239,114,67,244,234,163,190,128,105,130,131,132,37,134,135,136,137,138,139,140,141,96,
     17,15,145,146,27,148,149,150,109,152,153,29,155,156,157,119,7,23,161,162,110,164,101,
     166,167,168,169,170,89,47,173,118,34,80,1,6,179,180,181,36,59,184,185,186,187,25,49,86,
     24,192,69,60,195,196,70,198,57,200,201,202,203,66,50,206,207,26,209,210,117,212,213,
     214,33,216,88,218,219,220,221,222,38,56,225,226,95,228,229,51,79,232,233,125,235,18,
     237,42,41,240,84,242,9,124,245,246,247,5,2,250,63,252,253,254,255])"
  by code_simp

lemma ksa_Key_128_192:
  "fold (ksa_step [0x4B, 0x65, 0x79]) [128..<192]
    (122,
    [75,177,44,58,76,16,178,30,74,243,98,94,61,112,54,144,91,143,236,10,241,81,204,92,191,
     12,208,14,87,77,8,35,188,40,103,71,182,64,223,48,215,99,238,126,249,53,227,55,21,68,
     104,78,107,113,147,172,111,19,122,28,62,32,45,65,133,251,22,116,189,73,108,46,93,193,
     159,83,31,154,11,231,106,13,0,217,20,171,102,115,82,85,176,97,160,151,230,4,142,120,
     123,121,199,165,3,39,205,129,90,127,197,72,43,224,175,194,52,183,100,211,174,158,248,
     239,114,67,244,234,163,190,128,105,130,131,132,37,134,135,136,137,138,139,140,141,96,
     17,15,145,146,27,148,149,150,109,152,153,29,155,156,157,119,7,23,161,162,110,164,101,
     166,167,168,169,170,89,47,173,118,34,80,1,6,179,180,181,36,59,184,185,186,187,25,49,86,
     24,192,69,60,195,196,70,198,57,200,201,202,203,66,50,206,207,26,209,210,117,212,213,
     214,33,216,88,218,219,220,221,222,38,56,225,226,95,228,229,51,79,232,233,125,235,18,
     237,42,41,240,84,242,9,124,245,246,247,5,2,250,63,252,253,254,255]) =
    (249,
    [75,156,44,157,76,16,29,168,74,243,131,94,61,112,130,144,91,143,236,10,167,185,204,92,
     191,12,186,14,110,77,8,35,188,136,103,137,182,64,223,105,215,99,238,126,249,53,227,55,
     21,68,104,78,135,113,147,172,170,164,187,28,62,32,45,65,36,251,152,116,189,7,108,46,93,
     162,159,83,31,154,11,231,106,13,0,217,20,171,102,118,82,85,176,97,161,151,6,4,142,120,
     134,37,145,165,3,39,86,129,90,127,197,72,15,146,47,194,52,128,100,211,174,158,248,239,
     114,67,244,234,163,190,183,48,54,98,153,121,123,107,40,180,179,232,237,70,5,109,43,199,
     224,213,206,220,173,241,23,88,178,208,177,58,9,73,22,160,193,181,19,233,124,80,30,81,
     111,149,175,150,115,222,17,119,230,96,71,87,133,198,95,169,155,122,66,49,205,2,192,69,
     60,195,196,141,59,57,200,201,202,203,25,50,148,207,26,209,210,117,212,27,214,33,216,
     132,218,219,89,221,34,38,56,225,226,184,228,229,51,79,139,101,125,235,18,140,42,41,240,
     84,242,1,166,245,246,247,138,24,250,63,252,253,254,255])"
  by code_simp

lemma ksa_Key_192_256:
  "fold (ksa_step [0x4B, 0x65, 0x79]) [192..<256]
    (249,
    [75,156,44,157,76,16,29,168,74,243,131,94,61,112,130,144,91,143,236,10,167,185,204,92,
     191,12,186,14,110,77,8,35,188,136,103,137,182,64,223,105,215,99,238,126,249,53,227,55,
     21,68,104,78,135,113,147,172,170,164,187,28,62,32,45,65,36,251,152,116,189,7,108,46,93,
     162,159,83,31,154,11,231,106,13,0,217,20,171,102,118,82,85,176,97,161,151,6,4,142,120,
     134,37,145,165,3,39,86,129,90,127,197,72,15,146,47,194,52,128,100,211,174,158,248,239,
     114,67,244,234,163,190,183,48,54,98,153,121,123,107,40,180,179,232,237,70,5,109,43,199,
     224,213,206,220,173,241,23,88,178,208,177,58,9,73,22,160,193,181,19,233,124,80,30,81,
     111,149,175,150,115,222,17,119,230,96,71,87,133,198,95,169,155,122,66,49,205,2,192,69,
     60,195,196,141,59,57,200,201,202,203,25,50,148,207,26,209,210,117,212,27,214,33,216,
     132,218,219,89,221,34,38,56,225,226,184,228,229,51,79,139,101,125,235,18,140,42,41,240,
     84,242,1,166,245,246,247,138,24,250,63,252,253,254,255]) =
    (54,
    [75,51,132,157,192,200,29,168,74,243,131,228,18,112,130,144,91,143,236,34,41,185,204,92,
     191,216,186,14,110,77,8,35,188,27,103,137,182,64,59,105,215,247,238,126,138,26,227,55,
     21,84,104,78,135,113,255,172,56,89,187,28,62,32,45,65,36,251,152,116,189,7,108,46,202,
     162,159,83,31,154,11,231,106,13,0,217,20,229,102,118,82,85,176,97,214,151,6,4,142,245,
     134,60,225,165,3,39,86,101,90,127,197,72,117,146,47,195,42,128,100,253,174,209,25,239,
     114,219,244,234,163,190,183,235,54,98,153,121,123,38,40,180,179,139,203,70,5,24,43,199,
     224,213,210,220,173,241,23,88,196,79,242,58,9,73,141,160,193,181,19,233,63,80,30,81,
     111,226,175,150,207,222,17,119,230,96,71,87,133,198,95,169,155,212,66,49,205,2,76,115,
     37,194,57,22,223,178,16,12,93,237,240,33,206,69,53,158,148,15,122,136,161,246,201,44,
     171,67,184,109,252,50,170,145,149,140,94,218,156,208,1,129,68,48,254,164,250,167,248,
     125,177,166,232,120,107,99,249,221,52,124,10,211,61,147])"
  by code_simp

lemma upt_256_split: "[0..<256] = [0..<64] @ [64..<128] @ [128..<192] @ [192..<256]"
  by code_simp

lemma ksa_Key:
  "fold (ksa_step [0x4B, 0x65, 0x79]) [0..<256] (0, identity_state) = (54, Key_table)"
  unfolding upt_256_split fold_append comp_def Key_table_def
    ksa_Key_0_64 ksa_Key_64_128 ksa_Key_128_192 ksa_Key_192_256 ..

lemma init_Key:
  "RC4_init [0x4B, 0x65, 0x79] c = \<lparr>rc4_state = Key_table, rc4_x = 0, rc4_y = 0\<rparr>"
  unfolding RC4_init_def ksa_Key by (simp only: list.distinct if_False snd_conv)

lemma process_Plaintext:
  "fst (RC4_process [0x50, 0x6C, 0x61, 0x69, 0x6E, 0x74, 0x65, 0x78, 0x74]
         \<lparr>rc4_state = Key_table, rc4_x = 0, rc4_y = 0\<rparr>) =
   [0xBB, 0xF3, 0x16, 0xE8, 0xD9, 0x40, 0xAF, 0x0A, 0xD3]"
  by code_simp

text \<open>
  C3. After \<^verbatim>\<open>init\<close> with the 3-byte key \<open>Key\<close> (whatever the cipher state was before),
  one \<^verbatim>\<open>process\<close> call over the 9 bytes of \<open>Plaintext\<close> (50 6C 61 69 6E 74 65 78 74)
  turns the buffer into BB F3 16 E8 D9 40 AF 0A D3.
\<close>

theorem rc4_Key_Plaintext:
  "fst (RC4_process [0x50, 0x6C, 0x61, 0x69, 0x6E, 0x74, 0x65, 0x78, 0x74]
         (RC4_init [0x4B, 0x65, 0x79] c)) =
   [0xBB, 0xF3, 0x16, 0xE8, 0xD9, 0x40, 0xAF, 0x0A, 0xD3]"
  unfolding init_Key by (rule process_Plaintext)

text \<open>
  C10. \<^verbatim>\<open>init\<close> with an empty key returns the cipher state as it was: the table and both
  cursors keep their values, so every later \<^verbatim>\<open>process\<close> (and \<^verbatim>\<open>drop\<close>) call gives the
  output and the state it would have given without that call.
\<close>

theorem rc4_init_empty_key:
  "RC4_init [] c = c \<and>
   rc4_state (RC4_init [] c) = rc4_state c \<and>
   rc4_x (RC4_init [] c) = rc4_x c \<and>
   rc4_y (RC4_init [] c) = rc4_y c \<and>
   RC4_process buf (RC4_init [] c) = RC4_process buf c \<and>
   RC4_drop n (RC4_init [] c) = RC4_drop n c"
  by (simp add: RC4_init_def)

section \<open>The cursor on well-formed input\<close>

lemma advance_0 [simp]: "advance 0 p = p"
  by (simp add: advance_def)

lemma advance_advance [simp]: "advance k (advance j p) = advance (j + k) p"
  by (simp add: advance_def add.assoc)

lemma rest_advance: "rest (advance k p) = drop k (rest p)"
  by (simp add: rest_def advance_def add.commute)

lemma readUInt8_rest: "rest p = b # r \<Longrightarrow> readUInt8 ovr p = (b, advance 1 p)"
proof -
  assume a: "rest p = b # r"
  then have lt: "pkt_readPos p < length (pkt_data p)"
    by (cases "pkt_readPos p < length (pkt_data p)") (simp_all add: rest_def)
  from a have "pkt_data p ! pkt_readPos p = b"
    using lt by (metis rest_def hd_drop_conv_nth list.sel(1))
  with lt show ?thesis by (simp add: readUInt8_def advance_def)
qed

lemma bit_guid_mask_upto:
  "bit (fold (\<lambda>i m. if guid_byte g i \<noteq> 0 then m OR push_bit i 1 else m) [0..<n] (0::u8)) i
     = (i < n \<and> i < 8 \<and> guid_byte g i \<noteq> 0)"
proof (induction n)
  case 0
  show ?case by simp
next
  case (Suc n)
  show ?case
    using Suc.IH
    by (auto simp add: bit_simps less_Suc_eq)
qed

lemma bit_guid_mask: "bit (guid_mask g) i = (i < 8 \<and> guid_byte g i \<noteq> 0)"
  unfolding guid_mask_def by (simp add: bit_guid_mask_upto)

lemma guid_mask_0: "guid_mask g = 0 \<longleftrightarrow> g = 0"
proof
  assume z: "guid_mask g = 0"
  show "g = 0"
  proof (rule bit_eqI)
    fix n assume "possible_bit TYPE(u64) n"
    then have n: "n < 64" by (simp add: possible_bit_def)
    have "\<not> bit (guid_mask g) (n div 8)" using z by simp
    then have "guid_byte g (n div 8) = 0" using n by (simp add: bit_guid_mask)
    then have "\<not> bit (guid_byte g (n div 8)) (n mod 8)" by simp
    then have "\<not> bit g n" using n
      by (simp add: guid_byte_def bit_simps)
    then show "bit g n = bit (0::u64) n" by simp
  qed
next
  assume "g = 0"
  then show "guid_mask g = 0"
    by (intro bit_eqI) (simp add: bit_guid_mask guid_byte_def)
qed

lemma mask_bit32: "((ucast (m::u8) :: u32) AND push_bit i 1 \<noteq> 0) = (i < 8 \<and> bit m i)"
  by (auto simp add: and_exp_eq_0_iff_not_bit bit_ucast_iff dest: bit_imp_le_length)

lemma take_bit_guid_Suc: "take_bit (8 * Suc i) (g::u64) =
   take_bit (8 * i) g OR push_bit (i * 8) (ucast (guid_byte g i))"
  unfolding guid_byte_def
  apply (rule bit_eqI)
  apply (auto simp add: bit_simps)
  done

lemma nz_bytes_split: "i \<le> 8 \<Longrightarrow> nz_bytes g 0 8 = nz_bytes g 0 i @ nz_bytes g i 8"
proof -
  assume "i \<le> 8"
  then have "[0..<8] = [0..<i] @ [i..<8]"
    by (metis le_add_diff_inverse upt_add_eq_append zero_le)
  then show ?thesis by (simp add: nz_bytes_def)
qed

lemma nz_bytes_Suc: "nz_bytes g 0 (Suc i) =
    nz_bytes g 0 i @ (if guid_byte g i \<noteq> 0 then [guid_byte g i] else [])"
  by (simp add: nz_bytes_def)

lemma nz_bytes_Cons: "i < 8 \<Longrightarrow> nz_bytes g i 8 =
    (if guid_byte g i \<noteq> 0 then [guid_byte g i] else []) @ nz_bytes g (Suc i) 8"
  by (simp add: nz_bytes_def upt_conv_Cons)

lemma mask_bit32_exp: "((ucast (m::u8) :: u32) AND 2 ^ i \<noteq> 0) = (i < 8 \<and> bit m i)"
  using mask_bit32[of m i] by simp

lemma guid_step_apply:
  "i < 8 \<Longrightarrow> guid_step ovr (guid_mask g) i (a, q) =
     (if guid_byte g i \<noteq> 0
      then (fst (a, q) OR push_bit (i * 8) (ucast (fst (readUInt8 ovr q))), snd (readUInt8 ovr q))
      else (a, q))"
  by (simp add: guid_step_def mask_bit32_exp bit_guid_mask split_beta)

lemma guid_loop:
  assumes r: "rest p1 = nz_bytes g 0 8 @ post" and i: "i \<le> 8"
  shows "fold (guid_step ovr (guid_mask g)) [0..<i] (0, p1) =
           (take_bit (8 * i) g, advance (length (nz_bytes g 0 i)) p1)"
  using i
proof (induction i)
  case 0
  show ?case by (simp add: nz_bytes_def)
next
  case (Suc i)
  then have i8: "i < 8" and IH: "fold (guid_step ovr (guid_mask g)) [0..<i] (0, p1) =
           (take_bit (8 * i) g, advance (length (nz_bytes g 0 i)) p1)" by simp_all
  let ?q = "advance (length (nz_bytes g 0 i)) p1"
  have rq: "rest ?q = nz_bytes g i 8 @ post"
    using r nz_bytes_split[of i g] i8 by (simp add: rest_advance)
  have unf: "fold (guid_step ovr (guid_mask g)) [0..<Suc i] (0, p1) =
      guid_step ovr (guid_mask g) i (take_bit (8 * i) g, ?q)"
    by (simp only: upt_Suc_append[OF le0] fold_append comp_def fold_Cons fold_Nil id_apply IH)
  show ?case
  proof (cases "guid_byte g i = 0")
    case True
    have "take_bit (8 * Suc i) g = take_bit (8 * i) g"
      using take_bit_guid_Suc[of i g] True by simp
    then show ?thesis
      unfolding unf using True i8
      by (simp add: guid_step_apply nz_bytes_Suc del: mult_Suc_right)
  next
    case False
    have "rest ?q = guid_byte g i # (nz_bytes g (Suc i) 8 @ post)"
      using rq nz_bytes_Cons[OF i8, of g] False by simp
    then have rd: "readUInt8 ovr ?q = (guid_byte g i, advance 1 ?q)"
      by (rule readUInt8_rest)
    show ?thesis
      unfolding unf using False i8 take_bit_guid_Suc[of i g]
      by (simp add: guid_step_apply rd nz_bytes_Suc del: mult_Suc_right)
  qed
qed

lemma readPackedGuid_encode:
  assumes "rest p = encodePackedGuid g @ post"
  shows "readPackedGuid ovr p = (g, advance (length (encodePackedGuid g)) p)"
proof -
  have enc: "encodePackedGuid g = guid_mask g # nz_bytes g 0 8"
    by (simp add: encodePackedGuid_def)
  have rd: "readUInt8 ovr p = (guid_mask g, advance 1 p)"
    using assms by (intro readUInt8_rest[where r = "nz_bytes g 0 8 @ post"]) (simp add: enc)
  have r1: "rest (advance 1 p) = nz_bytes g 0 8 @ post"
    using assms by (simp add: rest_advance enc)
  show ?thesis
  proof (cases "g = 0")
    case True
    then have "nz_bytes g 0 8 = []" by (simp add: nz_bytes_def guid_byte_def)
    then have len: "length (encodePackedGuid g) = 1" by (simp add: enc)
    have "guid_mask g = 0" using True by (simp add: guid_mask_0)
    then show ?thesis
      using rd True len by (simp add: readPackedGuid_def)
  next
    case False
    then have "guid_mask g \<noteq> 0" by (simp add: guid_mask_0)
    moreover have "take_bit (8 * 8) g = g"
      by (intro bit_eqI) (auto simp add: bit_simps dest: bit_imp_le_length)
    ultimately show ?thesis
      using rd guid_loop[OF r1, of 8 ovr] by (simp add: readPackedGuid_def enc)
  qed
qed

lemma le32_compose: "(ucast (ucast (v::u32) :: u8) :: u32) OR push_bit 8 (ucast (ucast (drop_bit 8 v) :: u8))
   OR push_bit 16 (ucast (ucast (drop_bit 16 v) :: u8)) OR push_bit 24 (ucast (ucast (drop_bit 24 v) :: u8)) = v"
proof (rule bit_eqI)
  fix n assume "possible_bit TYPE(u32) n"
  then have n: "n < 32" by (simp add: possible_bit_def)
  consider "n < 8" | "8 \<le> n" "n < 16" | "16 \<le> n" "n < 24" | "24 \<le> n" by linarith
  then show "bit (ucast (ucast v :: u8) OR push_bit 8 (ucast (ucast (drop_bit 8 v) :: u8))
     OR push_bit 16 (ucast (ucast (drop_bit 16 v) :: u8)) OR push_bit 24 (ucast (ucast (drop_bit 24 v) :: u8)) :: u32) n = bit v n"
    using n by cases (auto simp add: bit_simps)
qed

lemma readUInt32_rest:
  assumes "rest p = le32 v @ r"
  shows "readUInt32 ovr p = (v, advance 4 p)"
proof -
  have r0: "rest p = ucast v # (ucast (drop_bit 8 v) # ucast (drop_bit 16 v) # ucast (drop_bit 24 v) # r)"
    using assms by (simp add: le32_def)
  have a0: "readUInt8 ovr p = (ucast v, advance 1 p)" using r0 by (rule readUInt8_rest)
  have r1: "rest (advance 1 p) = ucast (drop_bit 8 v) # (ucast (drop_bit 16 v) # ucast (drop_bit 24 v) # r)"
    using r0 by (simp add: rest_advance)
  have a1: "readUInt8 ovr (advance 1 p) = (ucast (drop_bit 8 v), advance 2 p)"
    using readUInt8_rest[OF r1, of ovr] by (simp add: advance_def)
  have r2: "rest (advance 2 p) = ucast (drop_bit 16 v) # (ucast (drop_bit 24 v) # r)"
    using r0 by (simp add: rest_advance)
  have a2: "readUInt8 ovr (advance 2 p) = (ucast (drop_bit 16 v), advance 3 p)"
    using readUInt8_rest[OF r2, of ovr] by (simp add: advance_def)
  have r3: "rest (advance 3 p) = ucast (drop_bit 24 v) # r"
    using r0 by (simp add: rest_advance)
  have a3: "readUInt8 ovr (advance 3 p) = (ucast (drop_bit 24 v), advance 4 p)"
    using readUInt8_rest[OF r3, of ovr] by (simp add: advance_def)
  show ?thesis
    by (simp only: readUInt32_def a0 a1 a2 a3 Let_def split_conv le32_compose)
qed

lemma length_le32 [simp]: "length (le32 v) = 4"
  by (simp add: le32_def)

lemma length_concat_le32 [simp]: "length (concat (map le32 vs)) = 4 * length vs"
  by (induction vs) simp_all

lemma read_masks_rest:
  "rest p = concat (map le32 ms) @ r \<Longrightarrow> read_masks ovr (length ms) p = (ms, advance (4 * length ms) p)"
proof (induction ms arbitrary: p)
  case Nil
  show ?case by simp
next
  case (Cons m ms)
  then have "rest p = le32 m @ (concat (map le32 ms) @ r)" by simp
  then have a: "readUInt32 ovr p = (m, advance 4 p)" by (rule readUInt32_rest)
  have "rest (advance 4 p) = concat (map le32 ms) @ r"
    using Cons.prems by (simp add: rest_advance)
  from Cons.IH[OF this] show ?case
    using a by (simp add: advance_def)
qed

lemma field_step_apply:
  "field_step ovr m w b (p, fs) =
     (if bit m b then (snd (readUInt32 ovr p), fs(word_of_nat (w * 32 + b) \<mapsto> fst (readUInt32 ovr p)))
      else (p, fs))"
  by (simp add: field_step_def and_exp_eq_0_iff_not_bit split_beta Let_def)

lemma inner_loop:
  "rest p = concat (map le32 vs) @ r \<Longrightarrow> length vs = length (filter (\<lambda>b. bit m b) bs) \<Longrightarrow>
   fold (field_step ovr m w) bs (p, fs) =
     (advance (4 * length vs) p, record_fields (map (\<lambda>b. w * 32 + b) (filter (\<lambda>b. bit m b) bs)) vs fs)"
proof (induction bs arbitrary: p fs vs)
  case Nil
  then show ?case by (simp add: record_fields_def)
next
  case (Cons b bs)
  show ?case
  proof (cases "bit m b")
    case False
    with Cons.prems Cons.IH[of p vs fs] show ?thesis
      by (simp add: field_step_apply)
  next
    case True
    with Cons.prems obtain v vs' where vs: "vs = v # vs'"
      by (cases vs) auto
    have "rest p = le32 v @ (concat (map le32 vs') @ r)" using Cons.prems vs by simp
    then have a: "readUInt32 ovr p = (v, advance 4 p)" by (rule readUInt32_rest)
    have r': "rest (advance 4 p) = concat (map le32 vs') @ r"
      using Cons.prems vs by (simp add: rest_advance)
    have l': "length vs' = length (filter (\<lambda>b. bit m b) bs)"
      using Cons.prems vs True by simp
    have step: "fold (field_step ovr m w) (b # bs) (p, fs) =
        fold (field_step ovr m w) bs (advance 4 p, fs(word_of_nat (w * 32 + b) \<mapsto> v))"
      using True a by (simp add: field_step_apply)
    have spec: "record_fields (map (\<lambda>b. w * 32 + b) (filter (\<lambda>b. bit m b) (b # bs))) vs fs =
        record_fields (map (\<lambda>b. w * 32 + b) (filter (\<lambda>b. bit m b) bs)) vs'
          (fs(word_of_nat (w * 32 + b) \<mapsto> v))"
      using True vs by (simp add: record_fields_def)
    have adv: "advance (4 * length vs) p = advance (4 * length vs') (advance 4 p)"
      using vs by (simp add: advance_def)
    show ?thesis
      unfolding step spec adv by (rule Cons.IH[OF r' l'])
  qed
qed

lemma record_fields_append:
  "record_fields (xs @ ys) vs fs =
     record_fields ys (drop (length xs) vs) (record_fields xs (take (length xs) vs) fs)"
  by (simp add: record_fields_def zip_append1)

lemma outer_loop:
  "rest p = concat (map le32 vs) @ r \<Longrightarrow>
   length vs = length (concat (map (\<lambda>w. map (\<lambda>b. w * 32 + b) (set_bits_of (masks ! w))) ws)) \<Longrightarrow>
   fold (\<lambda>blockIdx. fold (field_step ovr (masks ! blockIdx) blockIdx) [0..<32]) ws (p, fs) =
     (advance (4 * length vs) p,
      record_fields (concat (map (\<lambda>w. map (\<lambda>b. w * 32 + b) (set_bits_of (masks ! w))) ws)) vs fs)"
proof (induction ws arbitrary: p fs vs)
  case Nil
  then show ?case by (simp add: record_fields_def)
next
  case (Cons w ws)
  let ?xs = "map (\<lambda>b. w * 32 + b) (set_bits_of (masks ! w))"
  let ?ys = "concat (map (\<lambda>w. map (\<lambda>b. w * 32 + b) (set_bits_of (masks ! w))) ws)"
  let ?c = "length (set_bits_of (masks ! w))"
  let ?v1 = "take ?c vs" and ?v2 = "drop ?c vs"
  have len: "length vs = ?c + length ?ys" using Cons.prems(2) by simp
  have l1: "length ?v1 = length (filter (\<lambda>b. bit (masks ! w) b) [0..<32])"
    using len by (simp add: set_bits_of_def)
  have "concat (map le32 vs) = concat (map le32 ?v1) @ concat (map le32 ?v2)"
    by (metis append_take_drop_id concat_append map_append)
  then have r1: "rest p = concat (map le32 ?v1) @ (concat (map le32 ?v2) @ r)"
    using Cons.prems(1) by simp
  have inner: "fold (field_step ovr (masks ! w) w) [0..<32] (p, fs) =
      (advance (4 * length ?v1) p, record_fields ?xs ?v1 fs)"
    using inner_loop[OF r1 l1, of ovr w fs] by (simp add: set_bits_of_def)
  have r2: "rest (advance (4 * length ?v1) p) = concat (map le32 ?v2) @ r"
    unfolding rest_advance r1 by simp
  have l2: "length ?v2 = length ?ys" using len by simp
  have adv: "advance (4 * length ?v2) (advance (4 * length ?v1) p) = advance (4 * length vs) p"
    using len by (simp add: advance_def)
  have spec: "record_fields (concat (map (\<lambda>w. map (\<lambda>b. w * 32 + b) (set_bits_of (masks ! w))) (w # ws))) vs fs =
      record_fields ?ys ?v2 (record_fields ?xs ?v1 fs)"
    using record_fields_append[of ?xs ?ys vs fs] by simp
  have "fold (\<lambda>blockIdx. fold (field_step ovr (masks ! blockIdx) blockIdx) [0..<32]) (w # ws) (p, fs) =
      fold (\<lambda>blockIdx. fold (field_step ovr (masks ! blockIdx) blockIdx) [0..<32]) ws
        (advance (4 * length ?v1) p, record_fields ?xs ?v1 fs)"
    by (simp add: inner)
  also have "\<dots> = (advance (4 * length ?v2) (advance (4 * length ?v1) p),
      record_fields ?ys ?v2 (record_fields ?xs ?v1 fs))"
    by (rule Cons.IH[OF r2 l2])
  finally show ?case unfolding adv spec .
qed

lemma parseUpdateFields_rest:
  assumes r: "rest p = n # concat (map le32 masks) @ concat (map le32 vals) @ post"
      and n: "length masks = unat n"
      and v: "length vals = length (field_indices masks)"
  shows "parseUpdateFields ovr p block =
           (True, advance (1 + 4 * length masks + 4 * length vals) p,
            block\<lparr>ub_fields := record_fields (field_indices masks) vals (ub_fields block)\<rparr>)"
proof (cases "n = 0")
  case True
  then have "masks = []" using n by simp
  moreover then have "vals = []" using v by (simp add: field_indices_def)
  moreover have "readUInt8 ovr p = (n, advance 1 p)" using r by (rule readUInt8_rest)
  ultimately show ?thesis
    using True by (simp add: parseUpdateFields_def record_fields_def)
next
  case False
  have a: "readUInt8 ovr p = (n, advance 1 p)" using r by (rule readUInt8_rest)
  have r1: "rest (advance 1 p) = concat (map le32 masks) @ (concat (map le32 vals) @ post)"
    using r by (simp add: rest_advance)
  have b: "read_masks ovr (unat n) (advance 1 p) = (masks, advance (4 * length masks) (advance 1 p))"
    using read_masks_rest[OF r1, of ovr] n by simp
  have r2: "rest (advance (4 * length masks) (advance 1 p)) = concat (map le32 vals) @ post"
    unfolding rest_advance[of "4 * length masks" "advance 1 p"] r1 by simp
  have v': "length vals = length (concat (map (\<lambda>w. map (\<lambda>b. w * 32 + b) (set_bits_of (masks ! w))) [0..<unat n]))"
    using v n by (simp add: field_indices_def)
  have c: "fold (\<lambda>blockIdx. fold (field_step ovr (masks ! blockIdx) blockIdx) [0..<32]) [0..<unat n]
             (advance (4 * length masks) (advance 1 p), ub_fields block) =
           (advance (4 * length vals) (advance (4 * length masks) (advance 1 p)),
            record_fields (field_indices masks) vals (ub_fields block))"
    using outer_loop[OF r2 v', of ovr "ub_fields block"] n by (simp add: field_indices_def)
  have adv: "advance (4 * length vals) (advance (4 * length masks) (advance 1 p)) =
      advance (1 + 4 * length masks + 4 * length vals) p"
    by (simp add: advance_def)
  show ?thesis
    using False by (simp only: parseUpdateFields_def a b c adv Let_def split_conv if_False)
qed

lemma set_bits_of_5: "set_bits_of 5 = [0, 2]"
  by code_simp

lemma field_indices_5: "field_indices [5] = [0, 2]"
  by (simp add: field_indices_def set_bits_of_5)

section \<open>Packed identifiers and bitmask fields\<close>

lemma rest_at: "rest \<lparr>pkt_opcode = opc, pkt_data = pre @ bs, pkt_readPos = length pre\<rparr> = bs"
  by (simp add: rest_def)

text \<open>
  C8. For every 64-bit identifier \<open>g\<close>, wherever its reference encoding stands in a payload,
  \<^verbatim>\<open>readPackedGuid\<close> at that offset returns \<open>g\<close> and leaves the cursor just past the encoding;
  and at a mask byte 0 it returns the identifier 0 and consumes that one byte only.
\<close>

theorem readPackedGuid_inverse:
  "readPackedGuid ovr \<lparr>pkt_opcode = opc, pkt_data = pre @ encodePackedGuid g @ post,
                        pkt_readPos = length pre\<rparr> =
     (g, \<lparr>pkt_opcode = opc, pkt_data = pre @ encodePackedGuid g @ post,
          pkt_readPos = length pre + length (encodePackedGuid g)\<rparr>) \<and>
   readPackedGuid ovr \<lparr>pkt_opcode = opc, pkt_data = pre @ 0 # post, pkt_readPos = length pre\<rparr> =
     (0, \<lparr>pkt_opcode = opc, pkt_data = pre @ 0 # post, pkt_readPos = length pre + 1\<rparr>)"
proof
  let ?p = "\<lparr>pkt_opcode = opc, pkt_data = pre @ encodePackedGuid g @ post, pkt_readPos = length pre\<rparr>"
  have "rest ?p = encodePackedGuid g @ post" by (rule rest_at)
  then have "readPackedGuid ovr ?p = (g, advance (length (encodePackedGuid g)) ?p)"
    by (rule readPackedGuid_encode)
  then show "readPackedGuid ovr ?p =
     (g, \<lparr>pkt_opcode = opc, pkt_data = pre @ encodePackedGuid g @ post,
          pkt_readPos = length pre + length (encodePackedGuid g)\<rparr>)"
    by (simp add: advance_def)
next
  let ?p = "\<lparr>pkt_opcode = opc, pkt_data = pre @ 0 # post, pkt_readPos = length pre\<rparr>"
  have "rest ?p = 0 # post" by (rule rest_at)
  then have "readUInt8 ovr ?p = (0, advance 1 ?p)" by (rule readUInt8_rest)
  then show "readPackedGuid ovr ?p =
     (0, \<lparr>pkt_opcode = opc, pkt_data = pre @ 0 # post, pkt_readPos = length pre + 1\<rparr>)"
    by (simp add: readPackedGuid_def advance_def)
qed

lemma encode_examples:
  "encodePackedGuid 0 = [0]"
  "encodePackedGuid 0xFF = [0x01, 0xFF]"
  "encodePackedGuid 0x1122334455667788 = [0xFF, 0x88, 0x77, 0x66, 0x55, 0x44, 0x33, 0x22, 0x11]"
  "encodePackedGuid 0x1100000000000088 = [0x81, 0x88, 0x11]"
  by code_simp+

text \<open>The identifier 0x1100000000000088 at offset 1 of a five-byte payload.\<close>

theorem readPackedGuid_inverse_witness:
  "readPackedGuid overrun_zero \<lparr>pkt_opcode = SMSG_UPDATE_OBJECT,
       pkt_data = [0x2A] @ [0x81, 0x88, 0x11] @ [0x07], pkt_readPos = 1\<rparr> =
     (0x1100000000000088, \<lparr>pkt_opcode = SMSG_UPDATE_OBJECT,
       pkt_data = [0x2A] @ [0x81, 0x88, 0x11] @ [0x07], pkt_readPos = 4\<rparr>)"
  using readPackedGuid_inverse[of overrun_zero SMSG_UPDATE_OBJECT "[0x2A]" "0x1100000000000088" "[0x07]"]
  by (simp add: encode_examples)

text \<open>
  C7. On a block count \<open>n\<close>, then \<open>n\<close> little-endian mask words, then one little-endian
  32-bit value for each set mask bit, \<^verbatim>\<open>parseUpdateFields\<close> succeeds, consumes exactly these
  bytes, and records the values, in mask-word order and least significant bit first, at the
  field indices \<open>wordIndex * 32 + bitIndex\<close>. In particular one mask word 0b101 with the two
  values \<open>v1\<close>, \<open>v2\<close> gives the field mapping with exactly the indices 0 and 2, bound to \<open>v1\<close>
  and \<open>v2\<close>.
\<close>

theorem parseUpdateFields_bitmask:
  "(rest p = n # concat (map le32 masks) @ concat (map le32 vals) @ post \<and>
    length masks = unat n \<and> length vals = length (field_indices masks) \<longrightarrow>
      parseUpdateFields ovr p block =
        (True, advance (1 + 4 * length masks + 4 * length vals) p,
         block\<lparr>ub_fields := record_fields (field_indices masks) vals (ub_fields block)\<rparr>)) \<and>
   (rest q = 1 # le32 5 @ le32 v1 @ le32 v2 @ post' \<longrightarrow>
      parseUpdateFields ovr q UpdateBlock_new =
        (True, advance 13 q, UpdateBlock_new\<lparr>ub_fields := [0 \<mapsto> v1, 2 \<mapsto> v2]\<rparr>) \<and>
      dom (ub_fields (snd (snd (parseUpdateFields ovr q UpdateBlock_new)))) = {0, 2})"
proof (intro conjI impI)
  assume "rest p = n # concat (map le32 masks) @ concat (map le32 vals) @ post \<and>
    length masks = unat n \<and> length vals = length (field_indices masks)"
  then show "parseUpdateFields ovr p block =
        (True, advance (1 + 4 * length masks + 4 * length vals) p,
         block\<lparr>ub_fields := record_fields (field_indices masks) vals (ub_fields block)\<rparr>)"
    using parseUpdateFields_rest by blast
next
  assume a: "rest q = 1 # le32 5 @ le32 v1 @ le32 v2 @ post'"
  have r: "rest q = 1 # concat (map le32 [5]) @ concat (map le32 [v1, v2]) @ post'"
    using a by simp
  have "parseUpdateFields ovr q UpdateBlock_new =
        (True, advance (1 + 4 * length [5::u32] + 4 * length [v1, v2]) q,
         UpdateBlock_new\<lparr>ub_fields := record_fields (field_indices [5]) [v1, v2] (ub_fields UpdateBlock_new)\<rparr>)"
    by (rule parseUpdateFields_rest[OF r]) (simp_all add: field_indices_5)
  then show res: "parseUpdateFields ovr q UpdateBlock_new =
        (True, advance 13 q, UpdateBlock_new\<lparr>ub_fields := [0 \<mapsto> v1, 2 \<mapsto> v2]\<rparr>)"
    by (simp add: field_indices_5 record_fields_def UpdateBlock_new_def)
  show "dom (ub_fields (snd (snd (parseUpdateFields ovr q UpdateBlock_new)))) = {0, 2}"
    unfolding res by auto
qed

lemma le32_examples:
  "le32 5 = [5, 0, 0, 0]" "le32 0x12345678 = [0x78, 0x56, 0x34, 0x12]"
  "le32 0xDEADBEEF = [0xEF, 0xBE, 0xAD, 0xDE]"
  by code_simp+

text \<open>The mask 0b101 with the values 0x12345678 and 0xDEADBEEF, as bytes.\<close>

theorem parseUpdateFields_bitmask_witness:
  "rest \<lparr>pkt_opcode = SMSG_UPDATE_OBJECT,
      pkt_data = [1, 5, 0, 0, 0, 0x78, 0x56, 0x34, 0x12, 0xEF, 0xBE, 0xAD, 0xDE], pkt_readPos = 0\<rparr> =
     1 # concat (map le32 [5]) @ concat (map le32 [0x12345678, 0xDEADBEEF]) @ [] \<and>
   length [5 :: u32] = unat (1 :: u8) \<and>
   length [0x12345678, 0xDEADBEEF :: u32] = length (field_indices [5]) \<and>
   parseUpdateFields overrun_zero
     \<lparr>pkt_opcode = SMSG_UPDATE_OBJECT,
      pkt_data = [1, 5, 0, 0, 0, 0x78, 0x56, 0x34, 0x12, 0xEF, 0xBE, 0xAD, 0xDE], pkt_readPos = 0\<rparr>
     UpdateBlock_new =
   (True,
    \<lparr>pkt_opcode = SMSG_UPDATE_OBJECT,
      pkt_data = [1, 5, 0, 0, 0, 0x78, 0x56, 0x34, 0x12, 0xEF, 0xBE, 0xAD, 0xDE], pkt_readPos = 13\<rparr>,
    UpdateBlock_new\<lparr>ub_fields := [0 \<mapsto> 0x12345678, 2 \<mapsto> 0xDEADBEEF]\<rparr>)"
proof -
  let ?q = "\<lparr>pkt_opcode = SMSG_UPDATE_OBJECT,
      pkt_data = [1, 5, 0, 0, 0, 0x78, 0x56, 0x34, 0x12, 0xEF, 0xBE, 0xAD, 0xDE], pkt_readPos = 0\<rparr>"
  have h1: "rest ?q = 1 # concat (map le32 [5]) @ concat (map le32 [0x12345678, 0xDEADBEEF]) @ []"
    by (simp add: rest_def le32_examples)
  have h2: "length [5 :: u32] = unat (1 :: u8)" by simp
  have h3: "length [0x12345678, 0xDEADBEEF :: u32] = length (field_indices [5])"
    by (simp add: field_indices_5)
  have h4: "rest ?q = 1 # le32 5 @ le32 0x12345678 @ le32 0xDEADBEEF @ []"
    by (simp add: rest_def le32_examples)
  note t = parseUpdateFields_bitmask[where p = ?q and n = 1 and masks = "[5]"
      and vals = "[0x12345678, 0xDEADBEEF]" and post = "[]" and ovr = overrun_zero
      and block = UpdateBlock_new and q = ?q and ?v1.0 = "0x12345678" and ?v2.0 = "0xDEADBEEF"
      and post' = "[]"]
  from t h1 h2 h3 have g: "parseUpdateFields overrun_zero ?q UpdateBlock_new =
      (True, advance (1 + 4 * length [5 :: u32] + 4 * length [0x12345678, 0xDEADBEEF :: u32]) ?q,
       UpdateBlock_new\<lparr>ub_fields := record_fields (field_indices [5])
         [0x12345678, 0xDEADBEEF] (ub_fields UpdateBlock_new)\<rparr>)"
    by blast
  from t h4 have "parseUpdateFields overrun_zero ?q UpdateBlock_new =
      (True, advance 13 ?q, UpdateBlock_new\<lparr>ub_fields := [0 \<mapsto> 0x12345678, 2 \<mapsto> 0xDEADBEEF]\<rparr>)"
    by blast
  then have r: "parseUpdateFields overrun_zero ?q UpdateBlock_new =
      (True, \<lparr>pkt_opcode = SMSG_UPDATE_OBJECT,
         pkt_data = [1, 5, 0, 0, 0, 0x78, 0x56, 0x34, 0x12, 0xEF, 0xBE, 0xAD, 0xDE], pkt_readPos = 13\<rparr>,
       UpdateBlock_new\<lparr>ub_fields := [0 \<mapsto> 0x12345678, 2 \<mapsto> 0xDEADBEEF]\<rparr>)"
    by (simp add: advance_def)
  show ?thesis
    by (intro conjI) (rule h1, rule h2, rule h3, rule r)
qed

section \<open>The trace of a session\<close>

lemma emit_Nil [simp]: "emit [] gh = gh"
  by (simp add: emit_def)

lemma emit_emit [simp]: "emit es (emit es' gh) = emit (es' @ es) gh"
  by (simp add: emit_def)


lemma emit_fields [simp]:
  "gh_trace (emit es gh) = gh_trace gh @ es"
  "gh_state (emit es gh) = gh_state gh"
  "gh_sessionKey (emit es gh) = gh_sessionKey gh"
  "gh_entityManager (emit es gh) = gh_entityManager gh"
  "gh_socket (emit es gh) = gh_socket gh"
  "gh_onFailure (emit es gh) = gh_onFailure gh"
  "gh_onSuccess (emit es gh) = gh_onSuccess gh"
  "gh_pingSequence (emit es gh) = gh_pingSequence gh"
  by (simp_all add: emit_def)

lemma emit_reset [simp]: "(emit es gh)\<lparr>gh_trace := t\<rparr> = gh\<lparr>gh_trace := t\<rparr>"
  by (simp add: emit_def)

lemma setState_fields [simp]:
  "gh_trace (setState s gh) = gh_trace gh"
  "gh_state (setState s gh) = s"
  "gh_sessionKey (setState s gh) = gh_sessionKey gh"
  "gh_socket (setState s gh) = gh_socket gh"
  "gh_onFailure (setState s gh) = gh_onFailure gh"
  "gh_onSuccess (setState s gh) = gh_onSuccess gh"
  "gh_entityManager (setState s gh) = gh_entityManager gh"
  by (simp_all add: setState_def)

lemma fail_fields [simp]:
  "gh_trace (fail r gh) =
     gh_trace gh @ Log LOG_ERROR ''World connection failed: '' # (if gh_onFailure gh then [OnFailure r] else [])"
  "gh_state (fail r gh) = FAILED"
  "gh_sessionKey (fail r gh) = gh_sessionKey gh"
  "gh_socket (fail r gh) = gh_socket gh"
  by (simp_all add: fail_def Let_def)

lemma is_log_logs [simp]: "list_all is_log (map (\<lambda>l. Log (fst l) (snd l)) ls)"
  by (induction ls) (simp_all add: is_log_def)

lemma quiet_logs [simp]: "list_all quiet_event (map (\<lambda>l. Log (fst l) (snd l)) ls)"
  by (induction ls) simp_all

lemma cipher_order_quiet: "list_all quiet_event es \<Longrightarrow> cipher_order k es"
  by (induction k es rule: cipher_order.induct) simp_all

lemma cipher_order_append:
  "cipher_order k es \<Longrightarrow> cipher_order k es' \<Longrightarrow> cipher_order k (es @ es')"
proof (induction k es rule: cipher_order.induct)
  case (2 k p es)
  then show ?case
    by (auto split: if_splits list.splits Event.splits SocketCall.splits)
qed simp_all

section \<open>Validation of the session key in connect\<close>

text \<open>
  C9. With a session key that is not 40 bytes long \<^verbatim>\<open>connect\<close> returns \<^verbatim>\<open>false\<close>, the state is
  \<open>FAILED\<close>, and all that happens is two ERROR lines and the failure callback (when one is
  set): no socket is created and no call is made on one. With a 40-byte key the validation
  is passed: the key is stored, the socket is created and asked to connect, and the result
  and the state are those of the transport's answer.
\<close>

theorem connect_checks_key_length:
  "(length sessionKey \<noteq> 40 \<longrightarrow>
      fst (connect host port sessionKey accountName build seed connected gh) = False \<and>
      gh_state (snd (connect host port sessionKey accountName build seed connected gh)) = FAILED \<and>
      gh_socket (snd (connect host port sessionKey accountName build seed connected gh)) = gh_socket gh \<and>
      gh_trace (snd (connect host port sessionKey accountName build seed connected gh)) =
        gh_trace gh @ [Log LOG_ERROR ''Invalid session key size: '',
                       Log LOG_ERROR ''World connection failed: ''] @
                      (if gh_onFailure gh then [OnFailure ''Invalid session key''] else [])) \<and>
   (length sessionKey = 40 \<longrightarrow>
      fst (connect host port sessionKey accountName build seed connected gh) = connected \<and>
      gh_state (snd (connect host port sessionKey accountName build seed connected gh)) =
        (if connected then CONNECTED else FAILED) \<and>
      gh_sessionKey (snd (connect host port sessionKey accountName build seed connected gh)) = sessionKey \<and>
      take 2 (drop (length (gh_trace gh))
        (gh_trace (snd (connect host port sessionKey accountName build seed connected gh)))) =
        [Socket SC_setPacketCallback, Socket (SC_connect host port)])"
  by (simp add: connect_def Let_def)

text \<open>
  A 39-byte key and a 40-byte key, on the handler as constructed.
\<close>

theorem connect_checks_key_length_witness:
  "length (replicate 39 (7 :: u8)) \<noteq> 40 \<and>
   connect [0x68] 8085 (replicate 39 7) [0x41] 12340 1 True GameHandler_new =
     (False, GameHandler_new\<lparr>gh_state := FAILED,
        gh_trace := [Log LOG_ERROR ''Invalid session key size: '',
                     Log LOG_ERROR ''World connection failed: '']\<rparr>) \<and>
   length (replicate 40 (7 :: u8)) = 40 \<and>
   fst (connect [0x68] 8085 (replicate 40 7) [0x41] 12340 1 True GameHandler_new) = True \<and>
   gh_state (snd (connect [0x68] 8085 (replicate 40 7) [0x41] 12340 1 True GameHandler_new)) = CONNECTED"
  using connect_checks_key_length[of "replicate 39 7" "[0x68]" 8085 "[0x41]" 12340 1 True GameHandler_new]
    connect_checks_key_length[of "replicate 40 7" "[0x68]" 8085 "[0x41]" 12340 1 True GameHandler_new]
  by (simp add: connect_def GameHandler_new_def fail_def setState_def emit_def Let_def)

section \<open>Messages that are not valid in the current state\<close>








section \<open>A failing update message\<close>











section \<open>The cipher is initialised right after the credentials message\<close>

lemma log_lines_fields [simp]:
  "gh_trace (log_lines ls gh) = gh_trace gh @ map (\<lambda>l. Log (fst l) (snd l)) ls"
  "gh_state (log_lines ls gh) = gh_state gh"
  "gh_sessionKey (log_lines ls gh) = gh_sessionKey gh"
  "gh_onFailure (log_lines ls gh) = gh_onFailure gh"
  "gh_onSuccess (log_lines ls gh) = gh_onSuccess gh"
  "gh_pingSequence (log_lines ls gh) = gh_pingSequence gh"
  by (simp_all add: log_lines_def)

lemma pkt_opcode_writeBytes [simp]: "pkt_opcode (writeBytes bs p) = pkt_opcode p"
  by (simp add: writeBytes_def)

lemma pkt_opcode_writes [simp]:
  "pkt_opcode (writeUInt32 v p) = pkt_opcode p"
  "pkt_opcode (writeUInt64 v' p) = pkt_opcode p"
  "pkt_opcode (writeString s p) = pkt_opcode p"
  "pkt_opcode (Packet_new opc) = opc"
  by (simp_all add: writeUInt32_def writeUInt64_def writeString_def Packet_new_def)

lemma pkt_opcode_fold_write [simp]: "pkt_opcode (fold (\<lambda>i. writeUInt32 v) xs p) = pkt_opcode p"
  by (induction xs arbitrary: p) simp_all

lemma AuthSessionPacket_opcode:
  "pkt_opcode (fst (AuthSessionPacket_build w b a c k s)) = CMSG_AUTH_SESSION"
  by (simp add: AuthSessionPacket_build_def Let_def)

lemma other_opcodes [simp]:
  "pkt_opcode CharEnumPacket_build = CMSG_CHAR_ENUM"
  "pkt_opcode (PlayerLoginPacket_build g) = CMSG_PLAYER_LOGIN"
  "pkt_opcode (PingPacket_build s l) = CMSG_PING"
  by (simp_all add: CharEnumPacket_build_def PlayerLoginPacket_build_def PingPacket_build_def)

lemma sendAuthSession_trace:
  "gh_trace (sendAuthSession w gh) =
     gh_trace gh @
     map (\<lambda>l. Log (fst l) (snd l))
       (snd (AuthSessionPacket_build w (gh_build gh) (gh_accountName gh) (gh_clientSeed gh)
               (gh_sessionKey gh) (gh_serverSeed gh))) @
     [Socket (SC_send (fst (AuthSessionPacket_build w (gh_build gh) (gh_accountName gh)
               (gh_clientSeed gh) (gh_sessionKey gh) (gh_serverSeed gh)))),
      Socket (SC_initEncryption (gh_sessionKey gh))]"
  "gh_state (sendAuthSession w gh) = AUTH_SENT"
  "gh_sessionKey (sendAuthSession w gh) = gh_sessionKey gh"
  by (simp_all add: sendAuthSession_def split_beta Let_def)

lemma cipher_order_auth:
  assumes "pkt_opcode pk = CMSG_AUTH_SESSION" and "list_all quiet_event es"
  shows "cipher_order k (es @ map (\<lambda>l. Log (fst l) (snd l)) ls @
           [Socket (SC_send pk), Socket (SC_initEncryption k)])"
proof -
  have "cipher_order k (es @ map (\<lambda>l. Log (fst l) (snd l)) ls)"
    using assms(2) by (intro cipher_order_quiet) simp
  moreover have "cipher_order k [Socket (SC_send pk), Socket (SC_initEncryption k)]"
    using assms(1) by simp
  ultimately show ?thesis
    using cipher_order_append by fastforce
qed

lemma handleAuthChallenge_order:
  "gh_sessionKey (handleAuthChallenge w p gh) = gh_sessionKey gh \<and>
   (\<exists>es. gh_trace (handleAuthChallenge w p gh) = gh_trace gh @ es \<and>
         cipher_order (gh_sessionKey gh) es)"
  by (auto simp add: handleAuthChallenge_def split_beta Let_def sendAuthSession_trace
      AuthSessionPacket_opcode cipher_order_quiet
      intro!: cipher_order_auth[where es = "map _ _", simplified] cipher_order_auth[where es = "[]", simplified])

lemma quiet_handlers:
  "gh_sessionKey (handleAuthResponse w p gh) = gh_sessionKey gh \<and>
   (\<exists>es. gh_trace (handleAuthResponse w p gh) = gh_trace gh @ es \<and> list_all quiet_event es)"
  "gh_sessionKey (handleCharEnum w p gh) = gh_sessionKey gh \<and>
   (\<exists>es. gh_trace (handleCharEnum w p gh) = gh_trace gh @ es \<and> list_all quiet_event es)"
  "gh_sessionKey (handleLoginVerifyWorld w p gh) = gh_sessionKey gh \<and>
   (\<exists>es. gh_trace (handleLoginVerifyWorld w p gh) = gh_trace gh @ es \<and> list_all quiet_event es)"
  "gh_sessionKey (handleUpdateObject w p gh) = gh_sessionKey gh \<and>
   (\<exists>es. gh_trace (handleUpdateObject w p gh) = gh_trace gh @ es \<and> list_all quiet_event es)"
  "gh_sessionKey (handleDestroyObject w p gh) = gh_sessionKey gh \<and>
   (\<exists>es. gh_trace (handleDestroyObject w p gh) = gh_trace gh @ es \<and> list_all quiet_event es)"
  "gh_sessionKey (handleMessageChat w p gh) = gh_sessionKey gh \<and>
   (\<exists>es. gh_trace (handleMessageChat w p gh) = gh_trace gh @ es \<and> list_all quiet_event es)"
  "gh_sessionKey (handlePong w p gh) = gh_sessionKey gh \<and>
   (\<exists>es. gh_trace (handlePong w p gh) = gh_trace gh @ es \<and> list_all quiet_event es)"
  "gh_sessionKey (handleMotd p gh) = gh_sessionKey gh \<and>
   (\<exists>es. gh_trace (handleMotd p gh) = gh_trace gh @ es \<and> list_all quiet_event es)"
  "gh_sessionKey (handleAccountDataTimes p gh) = gh_sessionKey gh \<and>
   (\<exists>es. gh_trace (handleAccountDataTimes p gh) = gh_trace gh @ es \<and> list_all quiet_event es)"
  "gh_sessionKey (requestCharacterList gh) = gh_sessionKey gh \<and>
   (\<exists>es. gh_trace (requestCharacterList gh) = gh_trace gh @ es \<and> list_all quiet_event es)"
  "gh_sessionKey (selectCharacter g gh) = gh_sessionKey gh \<and>
   (\<exists>es. gh_trace (selectCharacter g gh) = gh_trace gh @ es \<and> list_all quiet_event es)"
  "gh_sessionKey (sendPing gh) = gh_sessionKey gh \<and>
   (\<exists>es. gh_trace (sendPing gh) = gh_trace gh @ es \<and> list_all quiet_event es)"
  by (auto simp add: handleAuthResponse_def handleCharEnum_def handleLoginVerifyWorld_def
      handleUpdateObject_def handleDestroyObject_def handleMessageChat_def handlePong_def
      handleMotd_def handleAccountDataTimes_def requestCharacterList_def selectCharacter_def
      sendPing_def split_beta Let_def)

lemma quiet_order:
  "gh_sessionKey g' = gh_sessionKey g \<and> (\<exists>es. gh_trace g' = gh_trace g @ es \<and> list_all quiet_event es) \<Longrightarrow>
   gh_sessionKey g' = gh_sessionKey g \<and> (\<exists>es. gh_trace g' = gh_trace g @ es \<and> cipher_order (gh_sessionKey g) es)"
  using cipher_order_quiet by blast

lemma order_after_quiet:
  assumes "gh_sessionKey g' = gh_sessionKey (emit es0 g) \<and>
           (\<exists>es. gh_trace g' = gh_trace (emit es0 g) @ es \<and> cipher_order (gh_sessionKey (emit es0 g)) es)"
      and "list_all quiet_event es0"
  shows "gh_sessionKey g' = gh_sessionKey g \<and>
         (\<exists>es. gh_trace g' = gh_trace g @ es \<and> cipher_order (gh_sessionKey g) es)"
proof -
  from assms(1) obtain es where k: "gh_sessionKey g' = gh_sessionKey g"
    and t: "gh_trace g' = gh_trace g @ es0 @ es" and c: "cipher_order (gh_sessionKey g) es"
    by auto
  have "cipher_order (gh_sessionKey g) (es0 @ es)"
    using cipher_order_quiet[OF assms(2)] c by (rule cipher_order_append)
  with k t show ?thesis by blast
qed

lemma handlePacket_order:
  "gh_sessionKey (handlePacket w p gh) = gh_sessionKey gh \<and>
   (\<exists>es. gh_trace (handlePacket w p gh) = gh_trace gh @ es \<and> cipher_order (gh_sessionKey gh) es)"
proof (cases "getSize p < 1")
  case True
  then show ?thesis by (simp add: handlePacket_def)
next
  case False
  let ?d = "[Log LOG_DEBUG ''Received world packet: opcode=0x'']"
  let ?g = "emit ?d gh"
  have q: "list_all quiet_event ?d" by simp
  have warn: "\<And>t. gh_sessionKey (emit [Log LOG_WARNING t] ?g) = gh_sessionKey gh \<and>
      (\<exists>es. gh_trace (emit [Log LOG_WARNING t] ?g) = gh_trace gh @ es \<and> cipher_order (gh_sessionKey gh) es)"
    by simp
  have same: "gh_sessionKey ?g = gh_sessionKey gh \<and>
      (\<exists>es. gh_trace ?g = gh_trace gh @ es \<and> cipher_order (gh_sessionKey gh) es)"
    by simp
  note h = order_after_quiet[OF _ q]
  show ?thesis
    using False
    by (cases "pkt_opcode p")
       (simp_all add: handlePacket_def Let_def warn same
          h[OF handleAuthChallenge_order] h[OF quiet_order[OF quiet_handlers(1)]]
          h[OF quiet_order[OF quiet_handlers(2)]] h[OF quiet_order[OF quiet_handlers(3)]]
          h[OF quiet_order[OF quiet_handlers(4)]] h[OF quiet_order[OF quiet_handlers(5)]]
          h[OF quiet_order[OF quiet_handlers(6)]] h[OF quiet_order[OF quiet_handlers(7)]]
          h[OF quiet_order[OF quiet_handlers(8)]] h[OF quiet_order[OF quiet_handlers(9)]])
qed

lemma step_order:
  "gh_sessionKey (step w i gh) = gh_sessionKey gh \<and>
   (\<exists>es. gh_trace (step w i gh) = gh_trace gh @ es \<and> cipher_order (gh_sessionKey gh) es)"
  by (cases i)
     (simp_all add: handlePacket_order quiet_order[OF quiet_handlers(10)]
        quiet_order[OF quiet_handlers(11)] quiet_order[OF quiet_handlers(12)])

lemma run_order:
  "gh_sessionKey (run w inputs gh) = gh_sessionKey gh \<and>
   (\<exists>es. gh_trace (run w inputs gh) = gh_trace gh @ es \<and> cipher_order (gh_sessionKey gh) es)"
proof (induction inputs arbitrary: gh)
  case Nil
  show ?case by (simp add: run_def)
next
  case (Cons i inputs)
  from step_order[of w i gh] obtain es1 where
    k1: "gh_sessionKey (step w i gh) = gh_sessionKey gh" and
    t1: "gh_trace (step w i gh) = gh_trace gh @ es1" and
    c1: "cipher_order (gh_sessionKey gh) es1" by blast
  from Cons.IH[of "step w i gh"] obtain es2 where
    k2: "gh_sessionKey (run w inputs (step w i gh)) = gh_sessionKey (step w i gh)" and
    t2: "gh_trace (run w inputs (step w i gh)) = gh_trace (step w i gh) @ es2" and
    c2: "cipher_order (gh_sessionKey (step w i gh)) es2" by blast
  have r: "run w (i # inputs) gh = run w inputs (step w i gh)" by (simp add: run_def)
  have "cipher_order (gh_sessionKey gh) (es1 @ es2)"
    using c1 c2 k1 by (simp add: cipher_order_append)
  then show ?case
    unfolding r using k1 k2 t1 t2 by auto
qed

lemma connect_True:
  assumes "connect host port key acct build seed connected gh0 = (True, gh1)"
  shows "length key = 40" and "gh_sessionKey gh1 = key"
    and "gh_trace gh1 = gh_trace gh0 @ [Socket SC_setPacketCallback, Socket (SC_connect host port)]"
    and "gh_state gh1 = CONNECTED"
  using assms by (auto simp add: connect_def Let_def split: if_splits)

text \<open>
  C4. \<^verbatim>\<open>sendAuthSession\<close> sends the credentials message and, as the very next event, initialises
  the cipher with the session key. In every run of a session that \<^verbatim>\<open>connect\<close> has accepted, the
  key is 40 bytes long and stays the same, and the events since \<^verbatim>\<open>connect\<close> obey the ordering
  rule: each send of \<^verbatim>\<open>CMSG_AUTH_SESSION\<close> is followed at once by the initialisation of the
  cipher with that key, before any other send and before the line that starts the
  interpretation of the next inbound message, and the cipher is initialised nowhere else.
\<close>

theorem cipher_initialised_after_auth_session:
  "gh_trace (sendAuthSession w gh) =
     gh_trace gh @
     map (\<lambda>l. Log (fst l) (snd l))
       (snd (AuthSessionPacket_build w (gh_build gh) (gh_accountName gh) (gh_clientSeed gh)
               (gh_sessionKey gh) (gh_serverSeed gh))) @
     [Socket (SC_send (fst (AuthSessionPacket_build w (gh_build gh) (gh_accountName gh)
               (gh_clientSeed gh) (gh_sessionKey gh) (gh_serverSeed gh)))),
      Socket (SC_initEncryption (gh_sessionKey gh))] \<and>
   pkt_opcode (fst (AuthSessionPacket_build w (gh_build gh) (gh_accountName gh) (gh_clientSeed gh)
               (gh_sessionKey gh) (gh_serverSeed gh))) = CMSG_AUTH_SESSION \<and>
   gh_state (sendAuthSession w gh) = AUTH_SENT \<and>
   (connect host port key acct build seed connected gh0 = (True, gh1) \<longrightarrow>
      length key = 40 \<and>
      gh_sessionKey (run w inputs gh1) = key \<and>
      cipher_order key (drop (length (gh_trace gh0)) (gh_trace (run w inputs gh1))))"
proof (intro conjI impI)
  assume c: "connect host port key acct build seed connected gh0 = (True, gh1)"
  note ct = connect_True[OF c]
  show "length key = 40" by (rule ct(1))
  from run_order[of w inputs gh1] obtain es where
    k: "gh_sessionKey (run w inputs gh1) = gh_sessionKey gh1" and
    t: "gh_trace (run w inputs gh1) = gh_trace gh1 @ es" and
    o: "cipher_order (gh_sessionKey gh1) es" by blast
  show "gh_sessionKey (run w inputs gh1) = key" using k ct(2) by simp
  have "cipher_order key ([Socket SC_setPacketCallback, Socket (SC_connect host port)] @ es)"
    using o ct(2) by (intro cipher_order_append) simp_all
  then show "cipher_order key (drop (length (gh_trace gh0)) (gh_trace (run w inputs gh1)))"
    using t ct(3) by simp
qed (simp_all add: sendAuthSession_trace AuthSessionPacket_opcode)

lemma challenge_parse:
  "AuthChallengeParser_parse overrun_zero
     \<lparr>pkt_opcode = SMSG_AUTH_CHALLENGE, pkt_data = [1, 0, 0, 0, 0xEF, 0xBE, 0xAD, 0xDE], pkt_readPos = 0\<rparr> =
   (True, \<lparr>acd_unknown1 = 1, acd_serverSeed = 0xDEADBEEF\<rparr>, [])"
  by code_simp

lemma connect_example:
  "connect [0x68] 8085 (replicate 40 7) [0x61] 12340 1 True GameHandler_new =
     (True, GameHandler_new\<lparr>gh_socket := True, gh_state := CONNECTED,
        gh_sessionKey := replicate 40 7, gh_accountName := [0x61], gh_clientSeed := 1,
        gh_trace := [Socket SC_setPacketCallback, Socket (SC_connect [0x68] 8085)]\<rparr>)"
  by (simp add: connect_def GameHandler_new_def setState_def emit_def Let_def)

text \<open>
  A connected session that receives the challenge, then the response, then asks for the
  character list.
\<close>

theorem cipher_initialised_after_auth_session_witness:
  "connect [0x68] 8085 (replicate 40 7) [0x61] 12340 1 True GameHandler_new =
     (True, GameHandler_new\<lparr>gh_socket := True, gh_state := CONNECTED,
        gh_sessionKey := replicate 40 7, gh_accountName := [0x61], gh_clientSeed := 1,
        gh_trace := [Socket SC_setPacketCallback, Socket (SC_connect [0x68] 8085)]\<rparr>) \<and>
   length (replicate 40 (7 :: u8)) = 40 \<and>
   cipher_order (replicate 40 7)
     (drop (length (gh_trace GameHandler_new))
       (gh_trace (run env_test
          [Inbound \<lparr>pkt_opcode = SMSG_AUTH_CHALLENGE,
                    pkt_data = [1, 0, 0, 0, 0xEF, 0xBE, 0xAD, 0xDE], pkt_readPos = 0\<rparr>,
           Inbound \<lparr>pkt_opcode = SMSG_AUTH_RESPONSE, pkt_data = [12], pkt_readPos = 0\<rparr>,
           RequestCharacterList]
          (GameHandler_new\<lparr>gh_socket := True, gh_state := CONNECTED,
             gh_sessionKey := replicate 40 7, gh_accountName := [0x61], gh_clientSeed := 1,
             gh_trace := [Socket SC_setPacketCallback, Socket (SC_connect [0x68] 8085)]\<rparr>)))) \<and>
   Socket (SC_initEncryption (replicate 40 7)) \<in> set
     (gh_trace (run env_test
          [Inbound \<lparr>pkt_opcode = SMSG_AUTH_CHALLENGE,
                    pkt_data = [1, 0, 0, 0, 0xEF, 0xBE, 0xAD, 0xDE], pkt_readPos = 0\<rparr>]
          (GameHandler_new\<lparr>gh_socket := True, gh_state := CONNECTED,
             gh_sessionKey := replicate 40 7, gh_accountName := [0x61], gh_clientSeed := 1,
             gh_trace := [Socket SC_setPacketCallback, Socket (SC_connect [0x68] 8085)]\<rparr>)))"
proof -
  let ?g1 = "GameHandler_new\<lparr>gh_socket := True, gh_state := CONNECTED,
             gh_sessionKey := replicate 40 7, gh_accountName := [0x61], gh_clientSeed := 1,
             gh_trace := [Socket SC_setPacketCallback, Socket (SC_connect [0x68] 8085)]\<rparr>"
  let ?chal = "\<lparr>pkt_opcode = SMSG_AUTH_CHALLENGE,
                    pkt_data = [1, 0, 0, 0, 0xEF, 0xBE, 0xAD, 0xDE], pkt_readPos = 0\<rparr>"
  note c = connect_example
  have a: "cipher_order (replicate 40 7)
     (drop (length (gh_trace GameHandler_new))
       (gh_trace (run env_test
          [Inbound ?chal,
           Inbound \<lparr>pkt_opcode = SMSG_AUTH_RESPONSE, pkt_data = [12], pkt_readPos = 0\<rparr>,
           RequestCharacterList] ?g1)))"
    using cipher_initialised_after_auth_session[where host = "[0x68]" and port = 8085
        and key = "replicate 40 7" and acct = "[0x61]" and build = 12340 and seed = 1
        and connected = True and ?gh0.0 = GameHandler_new and ?gh1.0 = ?g1 and w = env_test] c
    by blast
  have env: "env_overrun env_test = overrun_zero"
    "env_challenge_isValid env_test \<lparr>acd_unknown1 = 1, acd_serverSeed = 0xDEADBEEF\<rparr>"
    by (simp_all add: env_test_def)
  have b: "Socket (SC_initEncryption (replicate 40 7)) \<in> set
     (gh_trace (run env_test [Inbound ?chal] ?g1))"
    by (simp add: run_def handlePacket_def handleAuthChallenge_def getSize_def Let_def
        challenge_parse env sendAuthSession_trace GameHandler_new_def)
  show ?thesis
    using c a b by simp
qed

section \<open>The stream framer: independence of the chunk boundaries\<close>

declare tryParsePackets.simps [simp del]

lemma expected_size_append:
  assumes "getExpectedPacketSize buf \<noteq> 0"
  shows "getExpectedPacketSize (buf @ c) = getExpectedPacketSize buf"
proof -
  from assms have ne: "buf \<noteq> []" by (auto simp add: getExpectedPacketSize_def)
  then have hd: "hd (buf @ c) = hd buf" by simp
  have nth: "\<And>i. i < length buf \<Longrightarrow> (buf @ c) ! i = buf ! i" by (simp add: nth_append)
  show ?thesis
  proof (cases "hd buf = 0x00")
    case True
    with assms have l3: "\<not> length buf < 3"
      by (auto simp add: getExpectedPacketSize_def split: if_splits)
    show ?thesis
    proof (cases "buf ! 2 = 0x00")
      case False
      with True l3 ne show ?thesis
        by (simp add: getExpectedPacketSize_def nth)
    next
      case s: True
      with True assms ne l3 have l36: "\<not> length buf < 36"
        by (auto simp add: getExpectedPacketSize_def split: if_splits)
      with True assms ne l3 s have lg: "\<not> length buf < 36 + unat (buf ! 35) + 1"
        by (auto simp add: getExpectedPacketSize_def Let_def split: if_splits)
      from l36 have n35: "(buf @ c) ! 35 = buf ! 35" by (simp add: nth)
      from lg have ng: "(buf @ c) ! (36 + unat (buf ! 35)) = buf ! (36 + unat (buf ! 35))"
        by (simp add: nth)
      from lg have n2: "(buf @ c) ! 2 = buf ! 2" by (simp add: nth)
      show ?thesis
        using True s ne l3 l36 lg
        by (simp add: getExpectedPacketSize_def Let_def n35 ng n2)
    qed
  next
    case False
    show ?thesis
    proof (cases "hd buf = 0x01")
      case True
      with False assms ne have l2: "\<not> length buf < 2"
        by (auto simp add: getExpectedPacketSize_def split: if_splits)
      then have "(buf @ c) ! 1 = buf ! 1" by (simp add: nth)
      with True False ne l2 show ?thesis
        by (simp add: getExpectedPacketSize_def)
    next
      case f1: False
      with False assms ne show ?thesis
        by (simp add: getExpectedPacketSize_def)
    qed
  qed
qed

lemma tryParsePackets_stuck:
  "getExpectedPacketSize buf = 0 \<or> length buf < getExpectedPacketSize buf \<Longrightarrow>
   tryParsePackets buf = ([], buf)"
  by (subst tryParsePackets.simps) auto

lemma tryParsePackets_frame:
  assumes "getExpectedPacketSize buf \<noteq> 0" and "getExpectedPacketSize buf \<le> length buf"
  shows "tryParsePackets buf =
     ((hd buf, take (getExpectedPacketSize buf) buf) # fst (tryParsePackets (drop (getExpectedPacketSize buf) buf)),
      snd (tryParsePackets (drop (getExpectedPacketSize buf) buf)))"
proof -
  from assms have "length buf \<ge> 1" by (cases buf) (auto simp add: getExpectedPacketSize_def)
  with assms show ?thesis
    by (subst tryParsePackets.simps) (simp add: Let_def)
qed

lemma tryParsePackets_append:
  "tryParsePackets (buf @ c) =
     (fst (tryParsePackets buf) @ fst (tryParsePackets (snd (tryParsePackets buf) @ c)),
      snd (tryParsePackets (snd (tryParsePackets buf) @ c)))"
proof (induction buf rule: tryParsePackets.induct)
  case (1 buf)
  show ?case
  proof (cases "getExpectedPacketSize buf \<noteq> 0 \<and> getExpectedPacketSize buf \<le> length buf")
    case False
    then have "tryParsePackets buf = ([], buf)"
      by (intro tryParsePackets_stuck) auto
    then show ?thesis by simp
  next
    case True
    let ?n = "getExpectedPacketSize buf"
    from True have n0: "?n \<noteq> 0" and nl: "?n \<le> length buf" by auto
    from n0 have ne: "buf \<noteq> []" by (auto simp add: getExpectedPacketSize_def)
    have e: "getExpectedPacketSize (buf @ c) = ?n" using n0 by (rule expected_size_append)
    have f1: "tryParsePackets buf =
       ((hd buf, take ?n buf) # fst (tryParsePackets (drop ?n buf)), snd (tryParsePackets (drop ?n buf)))"
      using n0 nl by (rule tryParsePackets_frame)
    have f2: "tryParsePackets (buf @ c) =
       ((hd buf, take ?n buf) # fst (tryParsePackets (drop ?n buf @ c)),
        snd (tryParsePackets (drop ?n buf @ c)))"
      using tryParsePackets_frame[of "buf @ c"] e n0 nl ne by simp
    have l1: "length buf \<ge> 1" using ne by (cases buf) auto
    have IH: "tryParsePackets (drop ?n buf @ c) =
       (fst (tryParsePackets (drop ?n buf)) @ fst (tryParsePackets (snd (tryParsePackets (drop ?n buf)) @ c)),
        snd (tryParsePackets (snd (tryParsePackets (drop ?n buf)) @ c)))"
      using "1.IH"[OF _ refl] l1 n0 nl by simp
    have i1: "fst (tryParsePackets (drop ?n buf @ c)) =
        fst (tryParsePackets (drop ?n buf)) @ fst (tryParsePackets (snd (tryParsePackets (drop ?n buf)) @ c))"
      and i2: "snd (tryParsePackets (drop ?n buf @ c)) =
        snd (tryParsePackets (snd (tryParsePackets (drop ?n buf)) @ c))"
      using IH by (metis fst_conv, metis snd_conv)
    show ?thesis
      unfolding f2 i1 i2 by (simp add: f1)
  qed
qed

lemma tryParsePackets_idem:
  "tryParsePackets (snd (tryParsePackets buf)) = ([], snd (tryParsePackets buf))"
proof (induction buf rule: tryParsePackets.induct)
  case (1 buf)
  show ?case
  proof (cases "getExpectedPacketSize buf \<noteq> 0 \<and> getExpectedPacketSize buf \<le> length buf")
    case False
    then have "tryParsePackets buf = ([], buf)"
      by (intro tryParsePackets_stuck) auto
    then show ?thesis by simp
  next
    case True
    let ?n = "getExpectedPacketSize buf"
    from True have n0: "?n \<noteq> 0" and nl: "?n \<le> length buf" by auto
    from n0 have l1: "length buf \<ge> 1" by (cases buf) (auto simp add: getExpectedPacketSize_def)
    have f1: "snd (tryParsePackets buf) = snd (tryParsePackets (drop ?n buf))"
      using tryParsePackets_frame[OF n0 nl] by simp
    show ?thesis
      unfolding f1 using "1.IH"[OF _ refl] l1 n0 nl by simp
  qed
qed

lemma feed_concat:
  "tryParsePackets b = ([], b) \<Longrightarrow> feed chunks b = tryParsePackets (b @ concat chunks)"
proof (induction chunks arbitrary: b)
  case Nil
  then show ?case by simp
next
  case (Cons c chunks)
  let ?r1 = "tryParsePackets (b @ c)"
  have st: "tryParsePackets (snd ?r1) = ([], snd ?r1)" by (rule tryParsePackets_idem)
  have "feed (c # chunks) b = (fst ?r1 @ fst (feed chunks (snd ?r1)), snd (feed chunks (snd ?r1)))"
    by (simp add: socket_update_def Let_def)
  also have "feed chunks (snd ?r1) = tryParsePackets (snd ?r1 @ concat chunks)"
    using st by (rule Cons.IH)
  finally show ?case
    using tryParsePackets_append[of "b @ c" "concat chunks"] by simp
qed

text \<open>
  C2. For every byte stream, the polls that receive it one byte at a time deliver the same
  messages, in the same order, and leave the same buffer as the one poll that receives it
  whole; so does every other way to cut the stream into chunks. While the leading frame is
  incomplete (its size is not decided yet, or more than what is buffered) the loop delivers
  nothing and leaves the buffer as it is, and the next poll parses the buffer with the new
  bytes appended.
\<close>

theorem framer_chunk_independence:
  "feed (map (\<lambda>b. [b]) stream) [] = feed [stream] [] \<and>
   feed chunks [] = tryParsePackets (concat chunks) \<and>
   (getExpectedPacketSize buf = 0 \<or> length buf < getExpectedPacketSize buf \<longrightarrow>
      tryParsePackets buf = ([], buf) \<and>
      socket_update chunk buf = tryParsePackets (buf @ chunk))"
proof -
  have e: "tryParsePackets [] = ([], [])"
    by (rule tryParsePackets_stuck) (simp add: getExpectedPacketSize_def)
  have c: "concat (map (\<lambda>b. [b]) stream) = stream" by (induction stream) simp_all
  have "feed (map (\<lambda>b. [b]) stream) [] = tryParsePackets stream"
    using feed_concat[OF e, of "map (\<lambda>b. [b]) stream"] c by simp
  moreover have "feed [stream] [] = tryParsePackets stream"
    using feed_concat[OF e, of "[stream]"] by simp
  moreover have "feed chunks [] = tryParsePackets (concat chunks)"
    using feed_concat[OF e, of chunks] by simp
  ultimately show ?thesis
    using tryParsePackets_stuck[of buf] by (simp add: socket_update_def)
qed

lemma framer_example:
  "feed [[0x01, 0x00, 1, 2, 3, 4, 5, 6, 7, 8, 9, 10, 11, 12, 13, 14, 15, 16, 17, 18, 19, 20,
          0x00, 0x00, 0x05, 0x01]] [] =
     ([(0x01, [0x01, 0x00, 1, 2, 3, 4, 5, 6, 7, 8, 9, 10, 11, 12, 13, 14, 15, 16, 17, 18, 19, 20]),
       (0x00, [0x00, 0x00, 0x05])], [0x01])"
  "getExpectedPacketSize [0x01] = 0"
  by code_simp+

text \<open>
  A complete proof response, a complete challenge failure and the first byte of another
  message, one byte per poll: two messages, and the last byte stays buffered.
\<close>

theorem framer_chunk_independence_witness:
  "feed (map (\<lambda>b. [b])
      [0x01, 0x00, 1, 2, 3, 4, 5, 6, 7, 8, 9, 10, 11, 12, 13, 14, 15, 16, 17, 18, 19, 20,
       0x00, 0x00, 0x05, 0x01]) [] =
     ([(0x01, [0x01, 0x00, 1, 2, 3, 4, 5, 6, 7, 8, 9, 10, 11, 12, 13, 14, 15, 16, 17, 18, 19, 20]),
       (0x00, [0x00, 0x00, 0x05])], [0x01]) \<and>
   (getExpectedPacketSize [0x01] = 0 \<or> length [0x01 :: u8] < getExpectedPacketSize [0x01]) \<and>
   tryParsePackets [0x01] = ([], [0x01])"
proof -
  note t = framer_chunk_independence[of
      "[0x01, 0x00, 1, 2, 3, 4, 5, 6, 7, 8, 9, 10, 11, 12, 13, 14, 15, 16, 17, 18, 19, 20,
        0x00, 0x00, 0x05, 0x01]" "[]" "[0x01]" "[]"]
  from t have a: "feed (map (\<lambda>b. [b])
      [0x01, 0x00, 1, 2, 3, 4, 5, 6, 7, 8, 9, 10, 11, 12, 13, 14, 15, 16, 17, 18, 19, 20,
       0x00, 0x00, 0x05, 0x01]) [] =
     feed [[0x01, 0x00, 1, 2, 3, 4, 5, 6, 7, 8, 9, 10, 11, 12, 13, 14, 15, 16, 17, 18, 19, 20,
       0x00, 0x00, 0x05, 0x01]] []" by (rule conjunct1)
  have h: "getExpectedPacketSize [0x01] = 0 \<or> length [0x01 :: u8] < getExpectedPacketSize [0x01]"
    by (rule disjI1) (rule framer_example(2))
  from t h have c: "tryParsePackets [0x01] = ([], [0x01])" by blast
  show ?thesis
    by (intro conjI) (simp only: a framer_example(1), rule h, rule c)
qed

section \<open>SRP6a: the session key and the proof\<close>















end
